theory Spec2Isabelle
  imports Main
begin

section \<open>Strings\<close>

text \<open>
  JavaScript strings are modelled as HOL strings. \<open>startsWith s p\<close> is
  \<^verbatim>\<open>s.startsWith(p)\<close>.
\<close>

definition startsWith :: "string \<Rightarrow> string \<Rightarrow> bool" where
  "startsWith s p = (take (length p) s = p)"

definition is_http_url :: "string \<Rightarrow> bool" where
  \<comment> \<open>\<^verbatim>\<open>url.startsWith('http://') || url.startsWith('https://')\<close>\<close>
  "is_http_url u = (startsWith u ''http://'' \<or> startsWith u ''https://'')"

definition is_digit :: "char \<Rightarrow> bool" where
  \<comment> \<open>the class \<^verbatim>\<open>\d\<close> of a JavaScript regular expression\<close>
  "is_digit c = (c \<in> set ''0123456789'')"

definition digits1 :: "string \<Rightarrow> bool" where
  \<comment> \<open>\<^verbatim>\<open>\d+\<close>, anchored at both ends\<close>
  "digits1 s = (s \<noteq> [] \<and> list_all is_digit s)"

section \<open>The URL rewrite rule (main.js, rewriteUmbrelURL)\<close>

text \<open>
  The getters of a platform \<^verbatim>\<open>URL\<close> object that the program reads. \<open>protocol\<close>
  ends with a colon, \<open>port\<close> is the empty string when the URL has no port or the
  scheme's default one, \<open>search\<close> and \<open>hash\<close> are empty or start with their
  delimiter.
\<close>

record URL =
  protocol :: string
  username :: string
  password :: string
  hostname :: string
  port :: string
  pathname :: string
  search :: string
  hash :: string

definition umbrel_ip :: "string \<Rightarrow> bool" where
  \<comment> \<open>\<^verbatim>\<open>/^10\.21\.\d+\.\d+$/.test(h)\<close>\<close>
  "umbrel_ip h =
     (startsWith h ''10.21.'' \<and>
      (let r = drop 6 h; a = takeWhile is_digit r; rest = dropWhile is_digit r
       in a \<noteq> [] \<and> (case rest of [] \<Rightarrow> False | c # b \<Rightarrow> c = CHR ''.'' \<and> digits1 b)))"

definition is_loopback :: "string \<Rightarrow> bool" where
  "is_loopback h = (h = ''localhost'' \<or> h = ''127.0.0.1'')"

definition port_or_80 :: "string \<Rightarrow> string" where
  \<comment> \<open>\<^verbatim>\<open>${parsed.port || 80}\<close>: the empty string is falsy\<close>
  "port_or_80 p = (if p = [] then ''80'' else p)"

definition newURL :: "URL \<Rightarrow> string \<Rightarrow> string" where
  \<comment> \<open>the template literal both branches build, \<open>baseHost\<close> being the home hostname\<close>
  "newURL parsed baseHost =
     protocol parsed @ ''//'' @ baseHost @ '':'' @ port_or_80 (port parsed) @
     pathname parsed @ search parsed @ hash parsed"

text \<open>
  \<open>rewriteUmbrelURL\<close>. The platform's URL constructor is the parameter \<open>U\<close>:
  \<open>U s = None\<close> when \<^verbatim>\<open>new URL(s)\<close> throws. \<open>home_url\<close> is \<^verbatim>\<open>cliConfig.url\<close>.
  Both constructor calls sit inside the one \<^verbatim>\<open>try\<close>, whose handler falls through
  to \<^verbatim>\<open>return url\<close>.
\<close>

definition rewriteUmbrelURL :: "(string \<Rightarrow> URL option) \<Rightarrow> string \<Rightarrow> string \<Rightarrow> string" where
  "rewriteUmbrelURL U home_url url =
     (case U url of
        None \<Rightarrow> url
      | Some parsed \<Rightarrow>
          if umbrel_ip (hostname parsed) then
            (case U home_url of
               None \<Rightarrow> url
             | Some base \<Rightarrow> newURL parsed (hostname base))
          else if hostname parsed = ''localhost'' \<or> hostname parsed = ''127.0.0.1'' then
            (case U home_url of
               None \<Rightarrow> url
             | Some base \<Rightarrow> newURL parsed (hostname base))
          else url)"

subsection \<open>A concrete URL constructor for evaluation\<close>

text \<open>
  The theorems on the claims hold for every constructor \<open>U\<close>. To evaluate them on
  concrete inputs, \<open>new_URL\<close> computes what the platform's \<^verbatim>\<open>new URL(s)\<close> returns
  on two kinds of strings and leaves its value on every other string unspecified.
  \<^item> A string without a colon has no scheme; there being no base URL, the platform
    throws, and \<open>new_URL\<close> is \<open>None\<close>.
  \<^item> \<open>url_fragment\<close> covers the absolute URLs
    \<^verbatim>\<open>scheme://[user[:password]@]host[:port][/path][?query][#fragment]\<close> with a
    lower-case special scheme (http, https, ws, wss, ftp), a lower-case ASCII domain
    or a dotted-quad IPv4 address in canonical form, a decimal port, and only
    characters that the URL standard leaves as they are (no percent-encoding, no dot
    segments, no backslashes, no white space). On such a string the getters are
    substrings of the input, except that an empty path reads \<^verbatim>\<open>/\<close>, a default
    port reads empty, and an empty query or fragment reads empty. \<open>url_fragment\<close>
    is \<open>None\<close> on a string it does not cover, which says nothing about the platform.
  \<^item> On a string with a colon that \<open>url_fragment\<close> does not cover (a percent-encoded
    path, an IPv4 address in another notation, upper case in scheme or host, a
    \<^verbatim>\<open>file:\<close> URL, ...) \<open>new_URL\<close> is \<open>undefined\<close>: the platform has an answer
    there, the model does not state it, and nothing is proved from it.
\<close>

definition is_lower_alnum :: "char \<Rightarrow> bool" where
  "is_lower_alnum c = (c \<in> set ''abcdefghijklmnopqrstuvwxyz0123456789'')"

definition is_unreserved :: "char \<Rightarrow> bool" where
  "is_unreserved c =
     (c \<in> set ''abcdefghijklmnopqrstuvwxyzABCDEFGHIJKLMNOPQRSTUVWXYZ0123456789-._~'')"

definition is_plain :: "char \<Rightarrow> bool" where
  \<comment> \<open>characters that no component of a special URL percent-encodes or strips\<close>
  "is_plain c = (is_unreserved c \<or> c \<in> set ''/:@!$&()*+,;='')"

definition digit_val :: "char \<Rightarrow> int" where
  "digit_val c = of_char c - 48"

definition int_of_dec :: "string \<Rightarrow> int" where
  "int_of_dec s = foldl (\<lambda>acc c. 10 * acc + digit_val c) 0 s"

definition strip_zeros :: "string \<Rightarrow> string" where
  \<comment> \<open>a port is serialised as the shortest decimal numeral\<close>
  "strip_zeros s = (case dropWhile (\<lambda>c. c = CHR ''0'') s of [] \<Rightarrow> ''0'' | c # cs \<Rightarrow> c # cs)"

fun split_on :: "char \<Rightarrow> string \<Rightarrow> string list" where
  "split_on d [] = [[]]"
| "split_on d (c # cs) =
     (if c = d then [] # split_on d cs
      else (case split_on d cs of [] \<Rightarrow> [[c]] | w # ws \<Rightarrow> (c # w) # ws))"

definition default_port :: "string \<Rightarrow> int option" where
  "default_port scheme =
     (if scheme = ''http'' \<or> scheme = ''ws'' then Some 80
      else if scheme = ''https'' \<or> scheme = ''wss'' then Some 443
      else if scheme = ''ftp'' then Some 21
      else None)"

definition canonical_octet :: "string \<Rightarrow> bool" where
  "canonical_octet l = (digits1 l \<and> (l = ''0'' \<or> hd l \<noteq> CHR ''0'') \<and> length l \<le> 3 \<and> int_of_dec l \<le> 255)"

definition host_ok :: "string \<Rightarrow> bool" where
  "host_ok h =
     (let labels = split_on CHR ''.'' h in
      h \<noteq> [] \<and> list_all (\<lambda>c. is_lower_alnum c \<or> c = CHR ''-'' \<or> c = CHR ''.'') h \<and>
      list_all (\<lambda>l. l \<noteq> [] \<and> \<not> startsWith l ''xn--'') labels \<and>
      (if is_digit (hd (last labels))
       then length labels = 4 \<and> list_all canonical_octet labels
       else True))"

definition path_ok :: "string \<Rightarrow> bool" where
  "path_ok p =
     (list_all is_plain p \<and>
      list_all (\<lambda>seg. seg \<noteq> ''.'' \<and> seg \<noteq> ''..'') (split_on CHR ''/'' p))"

text \<open>
  The constructor proceeds in stages, each handing the pieces it has cut off to the
  next one: scheme, authority, path, query and fragment, then credentials, host and port.
\<close>

definition url_finish ::
  "string \<Rightarrow> int \<Rightarrow> string \<Rightarrow> string \<Rightarrow> string \<Rightarrow> string \<Rightarrow> string \<Rightarrow> string \<Rightarrow> string \<Rightarrow> URL option" where
  "url_finish scheme dflt user pass host portstr path query fragment =
     (if host_ok host \<and> list_all is_unreserved user \<and> list_all is_unreserved pass \<and>
         list_all is_digit portstr \<and> length portstr \<le> 5 \<and> int_of_dec portstr \<le> 65535 \<and>
         path_ok path \<and>
         list_all (\<lambda>c. is_plain c \<or> c = CHR ''?'' \<or> c = CHR ''%'') query \<and>
         list_all (\<lambda>c. is_plain c \<or> c = CHR ''?'' \<or> c = CHR ''%'' \<or> c = CHR ''#'') fragment
      then Some \<lparr>protocol = scheme @ '':'',
                 username = user,
                 password = pass,
                 hostname = host,
                 port = (if portstr = [] \<or> int_of_dec portstr = dflt then []
                         else strip_zeros portstr),
                 pathname = (if path = [] then ''/'' else path),
                 search = (if query = [] then [] else CHR ''?'' # query),
                 hash = (if fragment = [] then [] else CHR ''#'' # fragment)\<rparr>
      else None)"

definition url_hostport ::
  "string \<Rightarrow> int \<Rightarrow> string \<Rightarrow> string \<Rightarrow> string \<Rightarrow> string \<Rightarrow> string \<Rightarrow> URL option" where
  "url_hostport scheme dflt cred hostport path query fragment =
     url_finish scheme dflt
       (takeWhile (\<lambda>c. c \<noteq> CHR '':'') cred) (drop 1 (dropWhile (\<lambda>c. c \<noteq> CHR '':'') cred))
       (takeWhile (\<lambda>c. c \<noteq> CHR '':'') hostport) (drop 1 (dropWhile (\<lambda>c. c \<noteq> CHR '':'') hostport))
       path query fragment"

definition url_credentials ::
  "string \<Rightarrow> int \<Rightarrow> string \<Rightarrow> string \<Rightarrow> string \<Rightarrow> string \<Rightarrow> URL option" where
  \<comment> \<open>the credentials end at the last \<^verbatim>\<open>@\<close> of the authority\<close>
  "url_credentials scheme dflt authority path query fragment =
     (if CHR ''@'' \<in> set authority
      then url_hostport scheme dflt
             (rev (drop 1 (dropWhile (\<lambda>c. c \<noteq> CHR ''@'') (rev authority))))
             (rev (takeWhile (\<lambda>c. c \<noteq> CHR ''@'') (rev authority)))
             path query fragment
      else url_hostport scheme dflt [] authority path query fragment)"

definition url_query :: "string \<Rightarrow> int \<Rightarrow> string \<Rightarrow> string \<Rightarrow> string \<Rightarrow> URL option" where
  "url_query scheme dflt authority path r =
     url_credentials scheme dflt authority path
       (if startsWith r ''?'' then takeWhile (\<lambda>c. c \<noteq> CHR ''#'') (drop 1 r) else [])
       (drop 1 (dropWhile (\<lambda>c. c \<noteq> CHR ''#'') r))"

definition url_path :: "string \<Rightarrow> int \<Rightarrow> string \<Rightarrow> string \<Rightarrow> URL option" where
  "url_path scheme dflt authority r =
     url_query scheme dflt authority
       (takeWhile (\<lambda>c. c \<notin> set ''?#'') r) (dropWhile (\<lambda>c. c \<notin> set ''?#'') r)"

definition url_authority :: "string \<Rightarrow> int \<Rightarrow> string \<Rightarrow> URL option" where
  "url_authority scheme dflt r =
     url_path scheme dflt
       (takeWhile (\<lambda>c. c \<notin> set ''/?#'') r) (dropWhile (\<lambda>c. c \<notin> set ''/?#'') r)"

definition url_scheme :: "string \<Rightarrow> string \<Rightarrow> URL option" where
  "url_scheme scheme after =
     (case default_port scheme of
        None \<Rightarrow> None
      | Some dflt \<Rightarrow>
          if startsWith after ''://'' then url_authority scheme dflt (drop 3 after) else None)"

definition url_fragment :: "string \<Rightarrow> URL option" where
  "url_fragment s =
     url_scheme (takeWhile (\<lambda>c. c \<noteq> CHR '':'') s) (dropWhile (\<lambda>c. c \<noteq> CHR '':'') s)"

definition new_URL :: "string \<Rightarrow> URL option" where
  "new_URL s =
     (if CHR '':'' \<notin> set s then None
      else (case url_fragment s of Some u \<Rightarrow> Some u | None \<Rightarrow> undefined))"

section \<open>Command line (main.js, parseArgs)\<close>

record cliConfig =
  cli_url :: string
  cli_insecure :: bool
  cli_devMode :: bool

definition DEFAULT_URL :: string where
  "DEFAULT_URL = ''http://umbrel.local''"

definition parseArg :: "cliConfig \<Rightarrow> string \<Rightarrow> cliConfig" where
  \<comment> \<open>one turn of the loop; \<^verbatim>\<open>arg.replace('--url=', '')\<close> removes the prefix just tested\<close>
  "parseArg c arg =
     (if startsWith arg ''--url='' then c\<lparr>cli_url := drop 6 arg\<rparr>
      else if startsWith arg ''http://'' \<or> startsWith arg ''https://'' then c\<lparr>cli_url := arg\<rparr>
      else if arg = ''--insecure'' then c\<lparr>cli_insecure := True\<rparr>
      else if arg = ''--dev'' then c\<lparr>cli_devMode := True\<rparr>
      else c)"

definition parseArgs :: "string list \<Rightarrow> cliConfig" where
  "parseArgs args =
     foldl parseArg \<lparr>cli_url = DEFAULT_URL, cli_insecure = False, cli_devMode = False\<rparr> args"

section \<open>The session (main.js, module state and window)\<close>

text \<open>
  The module-level variables of main.js, together with the parts of the platform that
  the handlers act on: the elements of the current document whose id is
  \<^verbatim>\<open>umbrel-kiosk-overlay\<close> (in document order), the load and history requests issued
  on the window so far (oldest first), the interval timers that are active, the
  probe requests that have been sent and not answered yet, the reloads waiting in
  \<^verbatim>\<open>setTimeout\<close>, and the number of browser windows.
\<close>

datatype overlay = NetworkErrorOverlay | LoadErrorOverlay string | UnresponsiveOverlay

datatype request = LoadURL string | LoadFile string | GoBack | GoForward

datatype window_action = Deny | Allow

record session =
  targetURL :: string
  currentURL :: string
  isOnline :: bool
  networkCheckTimer :: "nat option"
  isShowingOverlay :: bool
  overlays :: "overlay list"
  requests :: "request list"
  intervals :: "nat list"
  next_timer :: nat
  probes :: nat
  pending_reloads :: nat
  startup_pending :: bool
  windows :: nat

definition init :: "cliConfig \<Rightarrow> session" where
  \<comment> \<open>the state when \<^verbatim>\<open>createWindow\<close> returns: the loading page is requested, the
      target URL waits in its 500 ms timer\<close>
  "init cfg =
     \<lparr>targetURL = cli_url cfg, currentURL = cli_url cfg, isOnline = True,
      networkCheckTimer = None, isShowingOverlay = False, overlays = [],
      requests = [LoadFile ''loading.html''], intervals = [], next_timer = 0, probes = 0,
      pending_reloads = 0, startup_pending = True, windows = 1\<rparr>"

subsection \<open>Overlay functions\<close>

text \<open>
  The overlay functions run a script in the page with \<^verbatim>\<open>executeJavaScript\<close>. The
  parameter \<open>js\<close> says whether that promise is fulfilled (the script ran to its end);
  when it is rejected the page is as before and the \<^verbatim>\<open>catch\<close> handler runs. The
  script is taken to run at the call. \<^verbatim>\<open>getElementById\<close> finds the first element
  with the id, \<^verbatim>\<open>remove\<close> takes that element out, \<^verbatim>\<open>appendChild\<close> adds one at
  the end.
\<close>

definition load_error_default :: string where
  \<comment> \<open>stands for the fixed Russian sentence shown when there is no description\<close>
  "load_error_default = ''Ne udalos zagruzit stranitsu''"

definition showNetworkError :: "bool \<Rightarrow> session \<Rightarrow> session" where
  "showNetworkError js s =
     (if isShowingOverlay s then s
      else
        let s1 = s\<lparr>isShowingOverlay := True\<rparr> in
        if js then
          (if overlays s1 \<noteq> [] then s1
           else s1\<lparr>overlays := overlays s1 @ [NetworkErrorOverlay]\<rparr>)
        else s1\<lparr>requests := requests s1 @ [LoadFile ''error.html'']\<rparr>)"

definition showLoadError :: "bool \<Rightarrow> string \<Rightarrow> session \<Rightarrow> session" where
  "showLoadError js description s =
     (if isShowingOverlay s then s
      else
        let s1 = s\<lparr>isShowingOverlay := True\<rparr> in
        if js then
          (if overlays s1 \<noteq> [] then s1
           else s1\<lparr>overlays := overlays s1 @
                  [LoadErrorOverlay (if description = [] then load_error_default else description)]\<rparr>)
        else s1\<lparr>requests := requests s1 @ [LoadFile ''error.html'']\<rparr>)"

definition showCrashOverlay :: "session \<Rightarrow> session" where
  "showCrashOverlay s =
     s\<lparr>isShowingOverlay := True, requests := requests s @ [LoadFile ''crash.html'']\<rparr>"

definition showUnresponsiveOverlay :: "bool \<Rightarrow> session \<Rightarrow> session" where
  "showUnresponsiveOverlay js s =
     (let s1 = s\<lparr>isShowingOverlay := True\<rparr> in
      if js then s1\<lparr>overlays := drop 1 (overlays s1) @ [UnresponsiveOverlay]\<rparr> else s1)"

definition hideOverlay :: "bool \<Rightarrow> session \<Rightarrow> session" where
  "hideOverlay js s =
     (let s1 = s\<lparr>isShowingOverlay := False\<rparr> in
      if js then s1\<lparr>overlays := drop 1 (overlays s1)\<rparr> else s1)"

subsection \<open>Network check\<close>

definition startNetworkCheck :: "session \<Rightarrow> session" where
  \<comment> \<open>\<^verbatim>\<open>setInterval\<close> returns a fresh timer object, which is truthy\<close>
  "startNetworkCheck s =
     (if networkCheckTimer s \<noteq> None then s
      else s\<lparr>networkCheckTimer := Some (next_timer s),
             intervals := intervals s @ [next_timer s],
             next_timer := Suc (next_timer s)\<rparr>)"

definition stopNetworkCheck :: "session \<Rightarrow> session" where
  "stopNetworkCheck s =
     (case networkCheckTimer s of
        None \<Rightarrow> s
      | Some t \<Rightarrow> s\<lparr>intervals := removeAll t (intervals s), networkCheckTimer := None\<rparr>)"

definition reloadPage :: "session \<Rightarrow> session" where
  "reloadPage s = s\<lparr>requests := requests s @ [LoadURL (currentURL s)]\<rparr>"

text \<open>
  The timer's callback is asynchronous. \<open>probe_tick\<close> is its first half, up to the
  \<^verbatim>\<open>await\<close>: a fetch of the current URL is sent. \<open>probe_done\<close> is the second half,
  run when that request is answered: \<open>Some True\<close> when the fetch succeeded,
  \<open>Some False\<close> when it failed, \<open>None\<close> when the script itself was rejected.
\<close>

definition probe_tick :: "session \<Rightarrow> session" where
  "probe_tick s = (if intervals s = [] then s else s\<lparr>probes := Suc (probes s)\<rparr>)"

definition probe_done :: "bool option \<Rightarrow> bool \<Rightarrow> session \<Rightarrow> session" where
  "probe_done response js s =
     (if probes s = 0 then s
      else
        let s1 = s\<lparr>probes := probes s - 1\<rparr> in
        if response = Some True
        then reloadPage (hideOverlay js (stopNetworkCheck (s1\<lparr>isOnline := True\<rparr>)))
        else s1)"

subsection \<open>Navigation handlers\<close>

text \<open>
  \<open>U\<close> is the platform's URL constructor and \<open>cfg\<close> the parsed command line, as in
  \<open>rewriteUmbrelURL\<close>. The window-open handler queues its load with
  \<^verbatim>\<open>setImmediate\<close>; the model records the request at once. The handlers of
  \<^verbatim>\<open>will-navigate\<close> and \<^verbatim>\<open>will-redirect\<close> return whether they called
  \<^verbatim>\<open>event.preventDefault()\<close>.
\<close>

definition windowOpenHandler ::
  "(string \<Rightarrow> URL option) \<Rightarrow> cliConfig \<Rightarrow> string \<Rightarrow> session \<Rightarrow> window_action \<times> session" where
  "windowOpenHandler U cfg url s =
     (let rewrittenURL = rewriteUmbrelURL U (cli_url cfg) url in
      (Deny, s\<lparr>requests := requests s @ [LoadURL rewrittenURL]\<rparr>))"

definition will_navigate ::
  "(string \<Rightarrow> URL option) \<Rightarrow> cliConfig \<Rightarrow> string \<Rightarrow> session \<Rightarrow> bool \<times> session" where
  "will_navigate U cfg url s =
     (let rewrittenURL = rewriteUmbrelURL U (cli_url cfg) url in
      if rewrittenURL \<noteq> url then (True, s\<lparr>requests := requests s @ [LoadURL rewrittenURL]\<rparr>)
      else if startsWith url ''http://'' \<or> startsWith url ''https://''
      then (False, s\<lparr>currentURL := url\<rparr>)
      else (False, s))"

definition did_navigate :: "bool \<Rightarrow> string \<Rightarrow> session \<Rightarrow> session" where
  \<comment> \<open>the injection of dock and cursor, 500 ms later, touches no field of the session\<close>
  "did_navigate js url s =
     hideOverlay js
       (if startsWith url ''http://'' \<or> startsWith url ''https://'' then s\<lparr>currentURL := url\<rparr> else s)"

definition did_navigate_in_page :: "string \<Rightarrow> session \<Rightarrow> session" where
  "did_navigate_in_page url s =
     (if startsWith url ''http://'' \<or> startsWith url ''https://'' then s\<lparr>currentURL := url\<rparr> else s)"

definition will_redirect ::
  "(string \<Rightarrow> URL option) \<Rightarrow> cliConfig \<Rightarrow> string \<Rightarrow> session \<Rightarrow> bool \<times> session" where
  "will_redirect U cfg url s =
     (let rewrittenURL = rewriteUmbrelURL U (cli_url cfg) url in
      if rewrittenURL \<noteq> url then (True, s\<lparr>requests := requests s @ [LoadURL rewrittenURL]\<rparr>)
      else if startsWith url ''http://'' \<or> startsWith url ''https://''
      then (False, s\<lparr>currentURL := url\<rparr>)
      else (False, s))"

subsection \<open>Error handlers\<close>

definition did_fail_load :: "bool \<Rightarrow> int \<Rightarrow> string \<Rightarrow> session \<Rightarrow> session" where
  "did_fail_load js errorCode errorDescription s =
     (if errorCode = - 106 \<or> errorCode = - 105 \<or> errorCode = - 102 \<or> errorCode = - 101
      then startNetworkCheck (showNetworkError js (s\<lparr>isOnline := False\<rparr>))
      else showLoadError js errorDescription s)"

definition crashed :: "session \<Rightarrow> session" where
  \<comment> \<open>the reload waits 3000 ms in \<^verbatim>\<open>setTimeout\<close>\<close>
  "crashed s = (let s1 = showCrashOverlay s in s1\<lparr>pending_reloads := Suc (pending_reloads s1)\<rparr>)"

definition reload_timeout :: "session \<Rightarrow> session" where
  \<comment> \<open>a waiting \<^verbatim>\<open>setTimeout(() => reloadPage())\<close> fires\<close>
  "reload_timeout s =
     (if pending_reloads s = 0 then s
      else reloadPage (s\<lparr>pending_reloads := pending_reloads s - 1\<rparr>))"

definition startup_timeout :: "session \<Rightarrow> session" where
  \<comment> \<open>the 500 ms timer of \<^verbatim>\<open>createWindow\<close>: \<^verbatim>\<open>mainWindow.loadURL(targetURL)\<close>\<close>
  "startup_timeout s =
     (if startup_pending s
      then s\<lparr>startup_pending := False, requests := requests s @ [LoadURL (targetURL s)]\<rparr>
      else s)"

subsection \<open>IPC handlers and the preload bridge\<close>

definition kiosk_retry :: "bool \<Rightarrow> session \<Rightarrow> session" where
  "kiosk_retry js s = reloadPage (hideOverlay js s)"

definition kiosk_reload :: "session \<Rightarrow> session" where
  \<comment> \<open>\<^verbatim>\<open>hideServiceMenu\<close> touches the service menu only\<close>
  "kiosk_reload s = reloadPage s"

definition kiosk_navigate :: "string \<Rightarrow> session \<Rightarrow> session" where
  "kiosk_navigate url s =
     s\<lparr>targetURL := url, currentURL := url, requests := requests s @ [LoadURL url]\<rparr>"

definition bridge_navigate :: "string \<Rightarrow> session \<Rightarrow> session" where
  \<comment> \<open>preload script: \<^verbatim>\<open>navigate(url)\<close> sends \<^verbatim>\<open>kiosk:navigate\<close> only for a
      non-empty http or https URL\<close>
  "bridge_navigate url s =
     (if url \<noteq> [] \<and> (startsWith url ''http://'' \<or> startsWith url ''https://'')
      then kiosk_navigate url s else s)"

definition kiosk_goHome :: "session \<Rightarrow> session" where
  "kiosk_goHome s = s\<lparr>requests := requests s @ [LoadURL (targetURL s)]\<rparr>"

text \<open>
  The navigation history belongs to the platform; the handlers read it. It is given
  as the list of the entries' URLs and the active index. \<^verbatim>\<open>canGoBack()\<close> holds when
  there is an entry before the active one, \<^verbatim>\<open>getEntryAtIndex\<close> has no result
  outside the list.
\<close>

definition kiosk_goBack :: "string list \<Rightarrow> nat \<Rightarrow> session \<Rightarrow> session" where
  "kiosk_goBack entries active s =
     (if 0 < active \<and> active < length entries then
        (let url = entries ! (active - 1) in
         if url \<noteq> [] \<and> \<not> startsWith url ''file://''
         then s\<lparr>requests := requests s @ [GoBack]\<rparr> else s)
      else s)"

definition kiosk_goForward :: "string list \<Rightarrow> nat \<Rightarrow> session \<Rightarrow> session" where
  "kiosk_goForward entries active s =
     (if Suc active < length entries then s\<lparr>requests := requests s @ [GoForward]\<rparr> else s)"

definition kiosk_clearCache :: "bool \<Rightarrow> session \<Rightarrow> session" where
  \<comment> \<open>when the cache was cleared, a reload waits 1000 ms in \<^verbatim>\<open>setTimeout\<close>\<close>
  "kiosk_clearCache cleared s =
     (if cleared then s\<lparr>pending_reloads := Suc (pending_reloads s)\<rparr> else s)"

subsection \<open>Events\<close>

text \<open>
  One constructor for each callback of main.js that touches the session, with the
  arguments the platform passes and the outcome of the scripts the callback runs.
  \<open>DidNavigate\<close> reports a committed main-frame navigation: the window shows a new
  document, which has none of the injected elements. The platform opens a window
  for \<open>WindowOpen\<close> when the handler allows it. The callbacks that only draw the dock,
  the cursor, the service menu or the settings panel, and those that only write the
  log, touch no field of the session and have no constructor.
\<close>

datatype event =
    StartupTimer
  | WindowOpen string
  | WillNavigate string
  | DidNavigate string bool
  | DidNavigateInPage string
  | WillRedirect string
  | DidFailLoad int string bool
  | Crashed
  | ReloadTimer
  | Unresponsive bool
  | Responsive bool
  | ProbeTick
  | ProbeDone "bool option" bool
  | Retry bool
  | Reload
  | Navigate string
  | GoHomeClicked
  | GoBackClicked "string list" nat
  | GoForwardClicked "string list" nat
  | ClearCache bool
  | BeforeQuit

fun step :: "(string \<Rightarrow> URL option) \<Rightarrow> cliConfig \<Rightarrow> session \<Rightarrow> event \<Rightarrow> session" where
  "step U cfg s StartupTimer = startup_timeout s"
| "step U cfg s (WindowOpen url) =
     (case windowOpenHandler U cfg url s of
        (Deny, s1) \<Rightarrow> s1
      | (Allow, s1) \<Rightarrow> s1\<lparr>windows := Suc (windows s1)\<rparr>)"
| "step U cfg s (WillNavigate url) = snd (will_navigate U cfg url s)"
| "step U cfg s (DidNavigate url js) = did_navigate js url (s\<lparr>overlays := []\<rparr>)"
| "step U cfg s (DidNavigateInPage url) = did_navigate_in_page url s"
| "step U cfg s (WillRedirect url) = snd (will_redirect U cfg url s)"
| "step U cfg s (DidFailLoad errorCode errorDescription js) =
     did_fail_load js errorCode errorDescription s"
| "step U cfg s Crashed = crashed s"
| "step U cfg s ReloadTimer = reload_timeout s"
| "step U cfg s (Unresponsive js) = showUnresponsiveOverlay js s"
| "step U cfg s (Responsive js) = hideOverlay js s"
| "step U cfg s ProbeTick = probe_tick s"
| "step U cfg s (ProbeDone response js) = probe_done response js s"
| "step U cfg s (Retry js) = kiosk_retry js s"
| "step U cfg s Reload = kiosk_reload s"
| "step U cfg s (Navigate url) = bridge_navigate url s"
| "step U cfg s GoHomeClicked = kiosk_goHome s"
| "step U cfg s (GoBackClicked entries active) = kiosk_goBack entries active s"
| "step U cfg s (GoForwardClicked entries active) = kiosk_goForward entries active s"
| "step U cfg s (ClearCache cleared) = kiosk_clearCache cleared s"
| "step U cfg s BeforeQuit = stopNetworkCheck s"

definition run :: "(string \<Rightarrow> URL option) \<Rightarrow> cliConfig \<Rightarrow> session \<Rightarrow> event list \<Rightarrow> session" where
  "run U cfg s es = foldl (step U cfg) s es"

section \<open>Configuration store (config.js)\<close>

text \<open>
  JavaScript values as far as the store meets them: what \<^verbatim>\<open>JSON.parse\<close> returns
  (numbers restricted to integers), \<^verbatim>\<open>undefined\<close>, and \<open>JOther n ps\<close> for any
  other object (a frozen or sealed object, a \<^verbatim>\<open>Map\<close>, a \<^verbatim>\<open>Date\<close>, ...), \<open>n\<close>
  telling such objects apart. An object is given with the list of its own
  enumerable properties, a later binding of a name overriding an earlier one. A
  value is taken to be distinct from the configuration object itself and not to
  change behind the store's back.
\<close>

datatype jsval =
    JUndefined
  | JNull
  | JBool bool
  | JNum int
  | JStr string
  | JArr "jsval list"
  | JObj "(string \<times> jsval) list"
  | JOther nat "(string \<times> jsval) list"

type_synonym props = "string \<rightharpoonup> jsval"

definition DEFAULT_CONFIG :: props where
  "DEFAULT_CONFIG =
     [''cursorTheme'' \<mapsto> JStr ''dark'',
      ''cursorSize'' \<mapsto> JStr ''medium'',
      ''dockPosition'' \<mapsto> JStr ''bottom-right'',
      ''dockSize'' \<mapsto> JStr ''medium'',
      ''homeUrl'' \<mapsto> JStr ''http://umbrel.local'']"

fun dec_of_nat :: "nat \<Rightarrow> string" where
  "dec_of_nat n =
     (if n < 10 then [char_of (48 + n)] else dec_of_nat (n div 10) @ [char_of (48 + n mod 10)])"

declare dec_of_nat.simps [simp del]

definition indexed :: "'a list \<Rightarrow> (string \<times> 'a) list" where
  \<comment> \<open>the elements under their indices, written as property names\<close>
  "indexed xs = zip (map dec_of_nat [0..<length xs]) xs"

fun spread :: "jsval \<Rightarrow> props" where
  \<comment> \<open>the properties that \<^verbatim>\<open>{...v}\<close> copies: the own enumerable ones; a string
      gives its characters and an array its elements, other primitives nothing\<close>
  "spread (JObj ps) = map_of (rev ps)"
| "spread (JOther n ps) = map_of (rev ps)"
| "spread (JArr xs) = map_of (indexed xs)"
| "spread (JStr cs) = map_of (indexed (map (\<lambda>c. JStr [c]) cs))"
| "spread v = Map.empty"

fun object_or_null :: "jsval \<Rightarrow> bool" where
  \<comment> \<open>the values that the setter of \<^verbatim>\<open>__proto__\<close> takes as a new prototype\<close>
  "object_or_null JNull = True"
| "object_or_null (JArr xs) = True"
| "object_or_null (JObj ps) = True"
| "object_or_null (JOther n ps) = True"
| "object_or_null v = False"

text \<open>
  The file system as the store sees it: a path has no file, a file that cannot be
  read, or a file with its text.
\<close>

datatype stored = Unreadable | Content string

type_synonym filesystem = "string \<rightharpoonup> stored"

text \<open>
  The manager. \<open>config\<close> is the map of the own properties of \<^verbatim>\<open>this.config\<close>.
  \<open>prototype\<close> is \<open>ObjectPrototype\<close> as long as \<^verbatim>\<open>this.config\<close> is what an object
  literal made it: an object with the prototype \<^verbatim>\<open>Object.prototype\<close> (taken to be
  the platform's own, unchanged) and with writable data properties. An assignment
  to the name \<^verbatim>\<open>__proto__\<close> reaches the setter inherited from there, and an object
  or \<^verbatim>\<open>null\<close> as value becomes the new prototype: \<open>prototype\<close> is then
  \<open>Replaced p log\<close>, \<open>config\<close> keeps the own properties of that moment, and \<open>log\<close>
  lists the assignments made to the object since, oldest first. What reads and
  writes of such an object do is decided on the new prototype chain (a frozen
  prototype makes a write throw, an inherited getter answers a read), so it
  belongs to the platform.
\<close>

datatype prototype = ObjectPrototype | Replaced jsval "(string \<times> jsval) list"

record ConfigManager =
  configPath :: string
  config :: props
  prototype :: prototype

text \<open>
  What \<^verbatim>\<open>get\<close> returns: the configuration object itself, given by its own
  properties, or the result of \<^verbatim>\<open>this.config[name]\<close>. On an object with the
  prototype \<^verbatim>\<open>Object.prototype\<close> that is the value of the own property \<open>name\<close> when
  there is one; otherwise the platform looks the name up on the prototype, and
  \<open>Inherited name\<close> stands for what it finds (\<^verbatim>\<open>undefined\<close> for an ordinary name).
  \<open>Raised\<close>: the read threw.
\<close>

datatype got = Whole props | Own jsval | Inherited string | Raised

text \<open>
  The platform, as far as the store calls it. \<open>P\<close> below is \<^verbatim>\<open>JSON.parse\<close>
  (\<open>None\<close> when it throws), \<open>S\<close> gives the text of
  \<^verbatim>\<open>JSON.stringify(this.config, null, 2)\<close>, and \<open>w\<close> says whether serialising,
  creating the directory and writing the file all succeed. \<open>E\<close> answers for a
  configuration object whose prototype was replaced: what a read of a name gives,
  whether a write throws, and which own properties a spread copies.
\<close>

record engine =
  engine_get :: "ConfigManager \<Rightarrow> string \<Rightarrow> got"
  engine_throws :: "ConfigManager \<Rightarrow> string \<Rightarrow> jsval \<Rightarrow> bool"
  engine_own :: "ConfigManager \<Rightarrow> props"

definition own :: "engine \<Rightarrow> ConfigManager \<Rightarrow> props" where
  \<comment> \<open>the properties that \<^verbatim>\<open>{...this.config}\<close> copies\<close>
  "own E m = (case prototype m of ObjectPrototype \<Rightarrow> config m | Replaced p log \<Rightarrow> engine_own E m)"

definition load :: "(string \<Rightarrow> jsval option) \<Rightarrow> filesystem \<Rightarrow> ConfigManager \<Rightarrow> ConfigManager" where
  "load P fs m =
     (case fs (configPath m) of
        None \<Rightarrow> m
      | Some Unreadable \<Rightarrow> m\<lparr>config := DEFAULT_CONFIG, prototype := ObjectPrototype\<rparr>
      | Some (Content data) \<Rightarrow>
          (case P data of
             None \<Rightarrow> m\<lparr>config := DEFAULT_CONFIG, prototype := ObjectPrototype\<rparr>
           | Some loaded \<Rightarrow>
               m\<lparr>config := DEFAULT_CONFIG ++ spread loaded, prototype := ObjectPrototype\<rparr>))"


definition save ::
  "bool \<Rightarrow> (ConfigManager \<Rightarrow> string) \<Rightarrow> ConfigManager \<Rightarrow> filesystem
     \<Rightarrow> bool \<times> ConfigManager \<times> filesystem" where
  "save w S m fs =
     (if w then (True, m, fs(configPath m \<mapsto> Content (S m))) else (False, m, fs))"

text \<open>
  The first argument of \<^verbatim>\<open>get\<close> and \<^verbatim>\<open>set\<close>: left out (\<^verbatim>\<open>undefined\<close>),
  \<^verbatim>\<open>null\<close>, a string, or a plain object given by its own properties.
\<close>

datatype key = KUndefined | KNull | KStr string | KObj "(string \<times> jsval) list"

definition property :: "props \<Rightarrow> string \<Rightarrow> got" where
  "property c name = (case c name of Some v \<Rightarrow> Own v | None \<Rightarrow> Inherited name)"

definition read :: "engine \<Rightarrow> ConfigManager \<Rightarrow> string \<Rightarrow> got" where
  \<comment> \<open>\<^verbatim>\<open>this.config[name]\<close>\<close>
  "read E m name =
     (case prototype m of
        ObjectPrototype \<Rightarrow> property (config m) name
      | Replaced p log \<Rightarrow> engine_get E m name)"

definition get :: "engine \<Rightarrow> key \<Rightarrow> ConfigManager \<Rightarrow> got" where
  \<comment> \<open>\<^verbatim>\<open>key ? this.config[key] : this.config\<close>: \<^verbatim>\<open>undefined\<close>, \<^verbatim>\<open>null\<close> and the
      empty string are falsy; a plain object converts to the name \<^verbatim>\<open>[object Object]\<close>\<close>
  "get E k m =
     (case k of
        KUndefined \<Rightarrow> Whole (own E m)
      | KNull \<Rightarrow> Whole (own E m)
      | KStr name \<Rightarrow> if name = [] then Whole (own E m) else read E m name
      | KObj ps \<Rightarrow> read E m ''[object Object]'')"

definition assign :: "engine \<Rightarrow> ConfigManager \<Rightarrow> string \<Rightarrow> jsval \<Rightarrow> bool \<times> ConfigManager" where
  \<comment> \<open>\<^verbatim>\<open>this.config[name] = value\<close>: whether it throws, and the manager after it.
      With the prototype \<^verbatim>\<open>Object.prototype\<close> the name \<^verbatim>\<open>__proto__\<close>, when it is not
      an own property, reaches the inherited setter: an object or \<^verbatim>\<open>null\<close>
      replaces the prototype, any other value changes nothing, and no own property
      is created. Every other name becomes or stays an own property\<close>
  "assign E m name v =
     (case prototype m of
        ObjectPrototype \<Rightarrow>
          if name = ''__proto__'' \<and> config m name = None
          then (False, if object_or_null v then m\<lparr>prototype := Replaced v []\<rparr> else m)
          else (False, m\<lparr>config := (config m)(name \<mapsto> v)\<rparr>)
      | Replaced p log \<Rightarrow>
          (engine_throws E m name v, m\<lparr>prototype := Replaced p (log @ [(name, v)])\<rparr>))"

datatype outcome = Returns bool | Throws

definition saved ::
  "bool \<Rightarrow> (ConfigManager \<Rightarrow> string) \<Rightarrow> ConfigManager \<Rightarrow> filesystem
     \<Rightarrow> outcome \<times> ConfigManager \<times> filesystem" where
  \<comment> \<open>\<^verbatim>\<open>return this.save()\<close>\<close>
  "saved w S m fs = (case save w S m fs of (b, m1, fs1) \<Rightarrow> (Returns b, m1, fs1))"

definition set' ::
  "bool \<Rightarrow> (ConfigManager \<Rightarrow> string) \<Rightarrow> engine \<Rightarrow> key \<Rightarrow> jsval \<Rightarrow> ConfigManager \<Rightarrow> filesystem
     \<Rightarrow> outcome \<times> ConfigManager \<times> filesystem" where
  \<comment> \<open>\<^verbatim>\<open>typeof key === 'object'\<close> holds for an object and for \<^verbatim>\<open>null\<close>, and the
      bulk update makes a new object literal; a key left out is the property name
      \<^verbatim>\<open>undefined\<close>. An assignment that throws leaves \<^verbatim>\<open>set\<close> before the save\<close>
  "set' w S E k v m fs =
     (case k of
        KObj ps \<Rightarrow>
          saved w S (m\<lparr>config := own E m ++ spread (JObj ps), prototype := ObjectPrototype\<rparr>) fs
      | KNull \<Rightarrow>
          saved w S (m\<lparr>config := own E m ++ spread JNull, prototype := ObjectPrototype\<rparr>) fs
      | KStr name \<Rightarrow>
          (case assign E m name v of
             (True, m1) \<Rightarrow> (Throws, m1, fs)
           | (False, m1) \<Rightarrow> saved w S m1 fs)
      | KUndefined \<Rightarrow>
          (case assign E m ''undefined'' v of
             (True, m1) \<Rightarrow> (Throws, m1, fs)
           | (False, m1) \<Rightarrow> saved w S m1 fs))"





section \<open>Notions used in the statements\<close>

text \<open>
  The command line with no arguments, which gives the home URL
  \<^verbatim>\<open>http://umbrel.local\<close>; the concrete evaluations below start from it.
\<close>

definition cfg0 :: cliConfig where
  "cfg0 = parseArgs []"

text \<open>
  The handle in \<open>networkCheckTimer\<close> and the interval timers that are running agree:
  no handle and no timer, or one handle and exactly that timer.
\<close>

definition timer_consistent :: "session \<Rightarrow> bool" where
  "timer_consistent s =
     (intervals s = (case networkCheckTimer s of None \<Rightarrow> [] | Some t \<Rightarrow> [t]))"

text \<open>
  Error codes of the platform's network stack (Chromium's list of net errors) that
  the statements name; main.js writes the four codes it tests as literals.
\<close>

definition ERR_ABORTED :: int where "ERR_ABORTED = - 3"
definition ERR_TIMED_OUT :: int where "ERR_TIMED_OUT = - 7"
definition ERR_CONNECTION_RESET :: int where "ERR_CONNECTION_RESET = - 101"
definition ERR_CONNECTION_REFUSED :: int where "ERR_CONNECTION_REFUSED = - 102"
definition ERR_NAME_NOT_RESOLVED :: int where "ERR_NAME_NOT_RESOLVED = - 105"
definition ERR_INTERNET_DISCONNECTED :: int where "ERR_INTERNET_DISCONNECTED = - 106"
definition ERR_CONNECTION_TIMED_OUT :: int where "ERR_CONNECTION_TIMED_OUT = - 118"

text \<open>
  \<open>carries e u\<close>: the event \<open>e\<close> hands the URL \<open>u\<close> to a handler that may store it as
  the current URL. \<open>is_commit e\<close>: the event reports a navigation that has committed.
\<close>

definition carries :: "event \<Rightarrow> string \<Rightarrow> bool" where
  "carries e u =
     (e = WillNavigate u \<or> e = WillRedirect u \<or> e = DidNavigate u True \<or> e = DidNavigate u False \<or>
      e = DidNavigateInPage u \<or> e = Navigate u)"

definition is_commit :: "event \<Rightarrow> bool" where
  "is_commit e = (case e of DidNavigate u js \<Rightarrow> True | DidNavigateInPage u \<Rightarrow> True | _ \<Rightarrow> False)"


text \<open>
  The shapes of the getters that \<open>url_fragment\<close> returns: a query and a fragment are empty
  or begin with their delimiter and go on with admitted characters; a port is empty
  or a decimal numeral below 65536 without leading zeros.
\<close>

definition search_ok :: "string \<Rightarrow> bool" where
  "search_ok s =
     (case s of
        [] \<Rightarrow> True
      | c # q \<Rightarrow> c = CHR ''?'' \<and> q \<noteq> [] \<and>
          list_all (\<lambda>c. is_plain c \<or> c = CHR ''?'' \<or> c = CHR ''%'') q)"

definition hash_ok :: "string \<Rightarrow> bool" where
  "hash_ok s =
     (case s of
        [] \<Rightarrow> True
      | c # f \<Rightarrow> c = CHR ''#'' \<and> f \<noteq> [] \<and>
          list_all (\<lambda>c. is_plain c \<or> c = CHR ''?'' \<or> c = CHR ''%'' \<or> c = CHR ''#'') f)"

definition port_wf :: "string \<Rightarrow> bool" where
  "port_wf p = (p = [] \<or>
     (list_all is_digit p \<and> length p \<le> 5 \<and> int_of_dec p \<le> 65535 \<and> strip_zeros p = p))"

section \<open>The rewrite rule: properties\<close>

lemmas url_eval = new_URL_def url_fragment_def url_scheme_def url_authority_def url_path_def url_query_def
  url_credentials_def url_hostport_def url_finish_def default_port_def startsWith_def host_ok_def
  path_ok_def is_lower_alnum_def is_digit_def is_plain_def is_unreserved_def int_of_dec_def
  digit_val_def strip_zeros_def canonical_octet_def digits1_def

text \<open>
  The regular expression accepts exactly the strings \<^verbatim>\<open>10.21.\<close>\<open>a\<close>\<^verbatim>\<open>.\<close>\<open>b\<close> with
  \<open>a\<close> and \<open>b\<close> non-empty runs of decimal digits.
\<close>

lemma digits1_takeWhile:
  "digits1 a \<Longrightarrow> \<not> is_digit c \<Longrightarrow>
   takeWhile is_digit (a @ c # b) = a \<and> dropWhile is_digit (a @ c # b) = c # b"
  by (simp add: digits1_def list_all_iff)

lemma dot_not_digit: "\<not> is_digit CHR ''.''"
  by (simp add: is_digit_def)

lemma umbrel_ip_iff:
  "umbrel_ip h \<longleftrightarrow> (\<exists>a b. digits1 a \<and> digits1 b \<and> h = ''10.21.'' @ a @ ''.'' @ b)"
proof
  assume H: "umbrel_ip h"
  define r where "r = drop 6 h"
  define a where "a = takeWhile is_digit r"
  define rest where "rest = dropWhile is_digit r"
  have len: "length ''10.21.'' = 6" by simp
  from H have pre: "take 6 h = ''10.21.''"
    unfolding umbrel_ip_def startsWith_def len by blast
  from H have a_ne: "a \<noteq> []" and rest: "\<exists>b. rest = CHR ''.'' # b \<and> digits1 b"
    by (auto simp: umbrel_ip_def Let_def a_def rest_def r_def split: list.splits)
  then obtain b where b: "rest = CHR ''.'' # b" "digits1 b" by blast
  have "h = take 6 h @ drop 6 h" by simp
  also have "drop 6 h = a @ rest" by (simp add: a_def rest_def r_def)
  finally have "h = ''10.21.'' @ a @ ''.'' @ b" using pre b by simp
  moreover have "digits1 a"
    using a_ne by (auto simp: digits1_def a_def list_all_iff dest: set_takeWhileD)
  ultimately show "\<exists>a b. digits1 a \<and> digits1 b \<and> h = ''10.21.'' @ a @ ''.'' @ b"
    using b by blast
next
  assume "\<exists>a b. digits1 a \<and> digits1 b \<and> h = ''10.21.'' @ a @ ''.'' @ b"
  then obtain a b where ab: "digits1 a" "digits1 b" "h = ''10.21.'' @ a @ ''.'' @ b" by blast
  have "drop 6 h = a @ CHR ''.'' # b" using ab by simp
  moreover have "startsWith h ''10.21.''" using ab(3) by (simp add: startsWith_def)
  moreover have "a \<noteq> []" using ab by (auto simp: digits1_def)
  ultimately show "umbrel_ip h"
    using digits1_takeWhile[OF ab(1) dot_not_digit, of b] ab(2)
    by (simp add: umbrel_ip_def Let_def)
qed

lemma parse_home: "new_URL ''http://umbrel.local'' =
    Some \<lparr>protocol = ''http:'', username = [], password = [], hostname = ''umbrel.local'',
          port = [], pathname = ''/'', search = [], hash = []\<rparr>"
  by (simp add: url_eval)

lemma parse_home_8080: "new_URL ''http://umbrel.local:8080'' =
    Some \<lparr>protocol = ''http:'', username = [], password = [], hostname = ''umbrel.local'',
          port = ''8080'', pathname = ''/'', search = [], hash = []\<rparr>"
  by (simp add: url_eval)

lemma parse_popup: "new_URL ''http://10.21.0.5:3000/app/settings'' =
    Some \<lparr>protocol = ''http:'', username = [], password = [], hostname = ''10.21.0.5'',
          port = ''3000'', pathname = ''/app/settings'', search = [], hash = []\<rparr>"
  by (simp add: url_eval)

lemma parse_localhost: "new_URL ''http://localhost/a?b=1#c'' =
    Some \<lparr>protocol = ''http:'', username = [], password = [], hostname = ''localhost'',
          port = [], pathname = ''/a'', search = ''?b=1'', hash = ''#c''\<rparr>"
  by (simp add: url_eval)

lemma parse_https_internal: "new_URL ''https://10.21.0.5/x'' =
    Some \<lparr>protocol = ''https:'', username = [], password = [], hostname = ''10.21.0.5'',
          port = [], pathname = ''/x'', search = [], hash = []\<rparr>"
  by (simp add: url_eval)

lemma parse_example_com: "new_URL ''http://example.com/x'' =
    Some \<lparr>protocol = ''http:'', username = [], password = [], hostname = ''example.com'',
          port = [], pathname = ''/x'', search = [], hash = []\<rparr>"
  by (simp add: url_eval)

lemma parse_garbage: "new_URL ''not a url'' = None"
  by (simp add: url_eval)

lemma umbrel_ip_popup: "umbrel_ip ''10.21.0.5''"
  by (simp add: umbrel_ip_def startsWith_def is_digit_def digits1_def)

text \<open>
  C1 as stated fails: the port of the rewritten URL is the destination's, not the
  home URL's. With the home URL \<^verbatim>\<open>http://umbrel.local:8080\<close> the popup of the
  spec's scenario A goes to port 3000.
\<close>

theorem rewrite_keeps_destination_port_counterexample:
  "rewriteUmbrelURL new_URL ''http://umbrel.local:8080'' ''http://10.21.0.5:3000/app/settings'' =
     ''http://umbrel.local:3000/app/settings'' \<and>
   rewriteUmbrelURL new_URL ''http://umbrel.local:8080'' ''http://10.21.0.5:3000/app/settings'' \<noteq>
     ''http://umbrel.local:8080/app/settings''"
  by (simp add: rewriteUmbrelURL_def parse_popup parse_home_8080 umbrel_ip_popup newURL_def
      port_or_80_def)

text \<open>
  The URL object gives an empty port when the URL writes none, and also when it
  writes the default port of its scheme. In both cases the rule writes port 80,
  whatever the scheme: an https destination is sent to port 80, even one that
  writes port 443.
\<close>

lemma rewrite_https_without_port:
  "rewriteUmbrelURL new_URL ''http://umbrel.local'' ''https://10.21.0.5/x'' = ''https://umbrel.local:80/x''"
  by (simp add: rewriteUmbrelURL_def parse_https_internal parse_home umbrel_ip_popup newURL_def
      port_or_80_def)

lemma parse_https_443: "new_URL ''https://10.21.0.5:443/x'' =
    Some \<lparr>protocol = ''https:'', username = [], password = [], hostname = ''10.21.0.5'',
          port = [], pathname = ''/x'', search = [], hash = []\<rparr>"
  by (simp add: url_eval)

lemma rewrite_https_written_default_port:
  "rewriteUmbrelURL new_URL ''http://umbrel.local'' ''https://10.21.0.5:443/x'' =
     ''https://umbrel.local:80/x''"
  by (simp add: rewriteUmbrelURL_def parse_https_443 parse_home umbrel_ip_popup newURL_def
      port_or_80_def)

text \<open>
  C1, amended. Let the destination parse, with a host name that the regular
  expression accepts or that is \<^verbatim>\<open>localhost\<close> or \<^verbatim>\<open>127.0.0.1\<close>, and let the home
  URL parse. When the port that the URL object gives for the destination
  (\<^verbatim>\<open>parsed.port\<close>) is not empty, or the destination's scheme is http, the result
  is the destination's scheme, the home URL's host name, the port that the URL
  object gives (80 when it gives none), and the destination's path, query and
  fragment, in this order and with nothing else. Nothing is said of a destination
  for which the URL object gives no port and whose scheme is not http.
\<close>

theorem rewrite_internal:
  assumes "U url = Some parsed"
    and "umbrel_ip (hostname parsed) \<or> is_loopback (hostname parsed)"
    and "U home = Some base"
    and "port parsed \<noteq> [] \<or> protocol parsed = ''http:''"
  shows "rewriteUmbrelURL U home url =
           protocol parsed @ ''//'' @ hostname base @ '':'' @
           (if port parsed = [] then ''80'' else port parsed) @
           pathname parsed @ search parsed @ hash parsed"
  using assms by (auto simp: rewriteUmbrelURL_def newURL_def port_or_80_def is_loopback_def)

theorem rewrite_internal_witness:
  "rewriteUmbrelURL new_URL ''http://umbrel.local'' ''http://10.21.0.5:3000/app/settings'' =
     ''http://umbrel.local:3000/app/settings'' \<and>
   rewriteUmbrelURL new_URL ''http://umbrel.local'' ''http://localhost/a?b=1#c'' =
     ''http://umbrel.local:80/a?b=1#c''"
proof -
  let ?home = "\<lparr>protocol = ''http:'', username = [], password = [], hostname = ''umbrel.local'',
          port = [], pathname = ''/'', search = [], hash = []\<rparr>"
  let ?popup = "\<lparr>protocol = ''http:'', username = [], password = [], hostname = ''10.21.0.5'',
          port = ''3000'', pathname = ''/app/settings'', search = [], hash = []\<rparr>"
  let ?local = "\<lparr>protocol = ''http:'', username = [], password = [], hostname = ''localhost'',
          port = [], pathname = ''/a'', search = ''?b=1'', hash = ''#c''\<rparr>"
  have 1: "rewriteUmbrelURL new_URL ''http://umbrel.local'' ''http://10.21.0.5:3000/app/settings'' =
     ''http://umbrel.local:3000/app/settings''"
    using rewrite_internal[where U = new_URL and url = "''http://10.21.0.5:3000/app/settings''"
        and home = "''http://umbrel.local''" and parsed = ?popup and base = ?home]
      parse_popup parse_home umbrel_ip_popup
    by simp
  have 2: "rewriteUmbrelURL new_URL ''http://umbrel.local'' ''http://localhost/a?b=1#c'' =
     ''http://umbrel.local:80/a?b=1#c''"
    using rewrite_internal[where U = new_URL and url = "''http://localhost/a?b=1#c''"
        and home = "''http://umbrel.local''" and parsed = ?local and base = ?home]
      parse_localhost parse_home
    by (simp add: is_loopback_def)
  from 1 2 show ?thesis by simp
qed

subsection \<open>The rewritten URL under the concrete constructor\<close>

text \<open>
  On the strings that \<open>url_fragment\<close> covers, the rewritten URL is again a URL: it parses,
  with the scheme, path, query and fragment of the destination, the host name of the
  home URL, no credentials, and the destination's port. A destination without a port
  of its own comes out with the explicit port 80, which the constructor reads as no
  port for http and ws and as port 80 for the other schemes.
\<close>

lemma span_app:
  "\<forall>x\<in>set xs. P x \<Longrightarrow> ys = [] \<or> \<not> P (hd ys) \<Longrightarrow>
   takeWhile P (xs @ ys) = xs \<and> dropWhile P (xs @ ys) = ys"
  by (cases ys) auto

lemma scheme_cases:
  "default_port scheme = Some dflt \<Longrightarrow>
   (scheme = ''http'' \<and> dflt = 80) \<or> (scheme = ''ws'' \<and> dflt = 80) \<or>
   (scheme = ''https'' \<and> dflt = 443) \<or> (scheme = ''wss'' \<and> dflt = 443) \<or>
   (scheme = ''ftp'' \<and> dflt = 21)"
  by (auto simp: default_port_def split: if_splits)

lemma scheme_no_colon: "default_port scheme = Some dflt \<Longrightarrow> \<forall>c\<in>set scheme. c \<noteq> CHR '':''"
  by (drule scheme_cases) auto

lemma host_char: "is_lower_alnum c \<or> c = CHR ''-'' \<or> c = CHR ''.'' \<Longrightarrow>
   c \<notin> set ''/?#'' \<and> c \<noteq> CHR '':'' \<and> c \<noteq> CHR ''@''"
  unfolding is_lower_alnum_def by auto

lemma host_chars:
  "host_ok host \<Longrightarrow> \<forall>c\<in>set host. c \<notin> set ''/?#'' \<and> c \<noteq> CHR '':'' \<and> c \<noteq> CHR ''@''"
proof
  fix c assume h: "host_ok host" and c: "c \<in> set host"
  from h have "list_all (\<lambda>c. is_lower_alnum c \<or> c = CHR ''-'' \<or> c = CHR ''.'') host"
    unfolding host_ok_def Let_def by blast
  with c have "is_lower_alnum c \<or> c = CHR ''-'' \<or> c = CHR ''.''"
    unfolding list_all_iff by blast
  then show "c \<notin> set ''/?#'' \<and> c \<noteq> CHR '':'' \<and> c \<noteq> CHR ''@''" by (rule host_char)
qed

lemma digit_char: "is_digit c \<Longrightarrow> c \<notin> set ''/?#'' \<and> c \<noteq> CHR '':'' \<and> c \<noteq> CHR ''@''"
  unfolding is_digit_def by auto

lemma digit_chars:
  "list_all is_digit ds \<Longrightarrow> \<forall>c\<in>set ds. c \<notin> set ''/?#'' \<and> c \<noteq> CHR '':'' \<and> c \<noteq> CHR ''@''"
  unfolding list_all_iff using digit_char by blast

lemma plain_char: "is_plain c \<Longrightarrow> c \<noteq> CHR ''?'' \<and> c \<noteq> CHR ''#''"
  unfolding is_plain_def is_unreserved_def by auto

lemma path_chars: "path_ok p \<Longrightarrow> \<forall>c\<in>set p. c \<notin> set ''?#''"
  unfolding path_ok_def list_all_iff using plain_char by auto

lemma query_chars:
  "list_all (\<lambda>c. is_plain c \<or> c = CHR ''?'' \<or> c = CHR ''%'') q \<Longrightarrow> \<forall>c\<in>set q. c \<noteq> CHR ''#''"
  unfolding list_all_iff using plain_char by auto

lemma search_hd: "search_ok s \<Longrightarrow> s = [] \<or> hd s = CHR ''?''"
  by (cases s) (simp_all add: search_ok_def)

lemma hash_hd: "hash_ok s \<Longrightarrow> s = [] \<or> hd s = CHR ''#''"
  by (cases s) (simp_all add: hash_ok_def)

lemma search_no_hash:
  assumes "search_ok s"
  shows "\<forall>c\<in>set s. c \<noteq> CHR ''#''"
proof (cases "s = []")
  case True
  then show ?thesis by simp
next
  case False
  with assms obtain q where q: "s = CHR ''?'' # q"
    "list_all (\<lambda>c. is_plain c \<or> c = CHR ''?'' \<or> c = CHR ''%'') q"
    by (cases s) (simp_all add: search_ok_def)
  from query_chars[OF q(2)] show ?thesis unfolding q(1) by simp
qed

lemma parse_canonical:
  assumes sch: "default_port scheme = Some dflt"
    and host: "host_ok host"
    and port: "portstr \<noteq> []" "list_all is_digit portstr" "length portstr \<le> 5" "int_of_dec portstr \<le> 65535"
    and path: "path \<noteq> []" "hd path = CHR ''/''" "path_ok path"
    and search: "search_ok srch"
    and hash: "hash_ok hsh"
  shows "url_fragment (scheme @ ''://'' @ host @ '':'' @ portstr @ path @ srch @ hsh) =
         Some \<lparr>protocol = scheme @ '':'', username = [], password = [], hostname = host,
               port = (if int_of_dec portstr = dflt then [] else strip_zeros portstr),
               pathname = path, search = srch, hash = hsh\<rparr>"
proof -
  define tail where "tail = path @ srch @ hsh"
  define auth where "auth = host @ '':'' @ portstr"
  define sh where "sh = srch @ hsh"
  have s1: "takeWhile (\<lambda>c. c \<noteq> CHR '':'') (scheme @ ''://'' @ auth @ tail) = scheme"
    and s1': "dropWhile (\<lambda>c. c \<noteq> CHR '':'') (scheme @ ''://'' @ auth @ tail) = ''://'' @ auth @ tail"
    using span_app[of scheme "\<lambda>c. c \<noteq> CHR '':''" "''://'' @ auth @ tail"] scheme_no_colon[OF sch]
    by simp_all
  have tail_hd: "tail = [] \<or> \<not> (hd tail \<notin> set ''/?#'')"
    using path(1,2) unfolding tail_def by (cases path) simp_all
  have auth_chars: "\<forall>c\<in>set auth. c \<notin> set ''/?#''"
    unfolding auth_def using host_chars[OF host] digit_chars[OF port(2)] by auto
  have s2: "takeWhile (\<lambda>c. c \<notin> set ''/?#'') (auth @ tail) = auth"
    and s2': "dropWhile (\<lambda>c. c \<notin> set ''/?#'') (auth @ tail) = tail"
    using span_app[of auth "\<lambda>c. c \<notin> set ''/?#''" tail] auth_chars tail_hd by blast+
  have sh_hd: "sh = [] \<or> \<not> (hd sh \<notin> set ''?#'')"
    unfolding sh_def using search_hd[OF search] hash_hd[OF hash] by (cases srch) auto
  have s3: "takeWhile (\<lambda>c. c \<notin> set ''?#'') (path @ sh) = path"
    and s3': "dropWhile (\<lambda>c. c \<notin> set ''?#'') (path @ sh) = sh"
    using span_app[of path "\<lambda>c. c \<notin> set ''?#''" sh] path_chars[OF path(3)] sh_hd by blast+
  have hb: "hsh = [] \<or> \<not> (hd hsh \<noteq> CHR ''#'')" using hash_hd[OF hash] by blast
  have q: "(if startsWith sh ''?'' then takeWhile (\<lambda>c. c \<noteq> CHR ''#'') (drop 1 sh) else []) = drop 1 srch"
  proof (cases "srch = []")
    case True
    then show ?thesis using hash_hd[OF hash] unfolding sh_def by (cases hsh) (simp_all add: startsWith_def)
  next
    case False
    then obtain q where q: "srch = CHR ''?'' # q"
      using search_hd[OF search] by (cases srch) auto
    have "\<forall>c\<in>set q. c \<noteq> CHR ''#''" using search_no_hash[OF search] q by simp
    then have "takeWhile (\<lambda>c. c \<noteq> CHR ''#'') (q @ hsh) = q"
      using span_app[of q "\<lambda>c. c \<noteq> CHR ''#''" hsh] hb by blast
    then show ?thesis using q unfolding sh_def by (simp add: startsWith_def)
  qed
  have f: "drop 1 (dropWhile (\<lambda>c. c \<noteq> CHR ''#'') sh) = drop 1 hsh"
    using span_app[of srch "\<lambda>c. c \<noteq> CHR ''#''" hsh] search_no_hash[OF search] hb
    unfolding sh_def by simp
  have noat: "CHR ''@'' \<notin> set auth"
    unfolding auth_def using host_chars[OF host] digit_chars[OF port(2)] by auto
  have hp: "takeWhile (\<lambda>c. c \<noteq> CHR '':'') auth = host"
    and hp': "drop 1 (dropWhile (\<lambda>c. c \<noteq> CHR '':'') auth) = portstr"
    using span_app[of host "\<lambda>c. c \<noteq> CHR '':''" "'':'' @ portstr"] host_chars[OF host]
    unfolding auth_def by simp_all
  have qok: "list_all (\<lambda>c. is_plain c \<or> c = CHR ''?'' \<or> c = CHR ''%'') (drop 1 srch)"
    using search by (cases srch) (simp_all add: search_ok_def)
  have fok: "list_all (\<lambda>c. is_plain c \<or> c = CHR ''?'' \<or> c = CHR ''%'' \<or> c = CHR ''#'') (drop 1 hsh)"
    using hash by (cases hsh) (simp_all add: hash_ok_def)
  have sq: "(if drop 1 srch = [] then [] else CHR ''?'' # drop 1 srch) = srch"
    using search by (cases srch) (simp_all add: search_ok_def)
  have hq: "(if drop 1 hsh = [] then [] else CHR ''#'' # drop 1 hsh) = hsh"
    using hash by (cases hsh) (simp_all add: hash_ok_def)
  have st: "startsWith (''://'' @ auth @ tail) ''://''" and d3: "drop 3 (''://'' @ auth @ tail) = auth @ tail"
    by (simp_all add: startsWith_def)
  have "url_fragment (scheme @ ''://'' @ auth @ tail) = url_scheme scheme (''://'' @ auth @ tail)"
    unfolding url_fragment_def s1 s1' ..
  also have "\<dots> = url_authority scheme dflt (auth @ tail)"
    unfolding url_scheme_def using sch st d3 by simp
  also have "\<dots> = url_path scheme dflt auth tail"
    unfolding url_authority_def s2 s2' ..
  also have "\<dots> = url_query scheme dflt auth path sh"
    unfolding url_path_def tail_def sh_def[symmetric] s3 s3' ..
  also have "\<dots> = url_credentials scheme dflt auth path (drop 1 srch) (drop 1 hsh)"
    unfolding url_query_def q f ..
  also have "\<dots> = url_hostport scheme dflt [] auth path (drop 1 srch) (drop 1 hsh)"
    unfolding url_credentials_def using noat by simp
  also have "\<dots> = url_finish scheme dflt [] [] host portstr path (drop 1 srch) (drop 1 hsh)"
    unfolding url_hostport_def hp hp' by simp
  also have "\<dots> = Some \<lparr>protocol = scheme @ '':'', username = [], password = [], hostname = host,
               port = (if int_of_dec portstr = dflt then [] else strip_zeros portstr),
               pathname = path, search = srch, hash = hsh\<rparr>"
    unfolding url_finish_def using host port path qok fok sq hq by simp
  finally show ?thesis unfolding auth_def tail_def by simp
qed

lemma int_of_dec_zero: "int_of_dec (CHR ''0'' # s) = int_of_dec s"
  by (simp add: int_of_dec_def digit_val_def)

lemma int_of_dec_dropWhile: "int_of_dec (dropWhile (\<lambda>c. c = CHR ''0'') s) = int_of_dec s"
  by (induction s) (simp_all add: int_of_dec_zero)

lemma strip_zeros_cases:
  "(dropWhile (\<lambda>c. c = CHR ''0'') s = [] \<and> strip_zeros s = ''0'') \<or>
   (\<exists>c cs. dropWhile (\<lambda>c. c = CHR ''0'') s = c # cs \<and> c \<noteq> CHR ''0'' \<and> strip_zeros s = c # cs)"
proof (cases "dropWhile (\<lambda>c. c = CHR ''0'') s")
  case Nil
  then show ?thesis unfolding strip_zeros_def Nil by simp
next
  case (Cons c cs)
  have "\<not> (hd (dropWhile (\<lambda>c. c = CHR ''0'') s) = CHR ''0'')"
    by (rule hd_dropWhile) (simp only: Cons, simp)
  then have "c \<noteq> CHR ''0''" unfolding Cons by simp
  then show ?thesis unfolding strip_zeros_def Cons by simp
qed

lemma int_of_dec_strip: "int_of_dec (strip_zeros s) = int_of_dec s"
proof -
  from strip_zeros_cases[of s] show ?thesis
  proof (elim disjE conjE exE)
    assume a: "dropWhile (\<lambda>c. c = CHR ''0'') s = []" and b: "strip_zeros s = ''0''"
    have "int_of_dec s = int_of_dec []" using int_of_dec_dropWhile[of s] unfolding a by simp
    then show ?thesis unfolding b by (simp add: int_of_dec_def digit_val_def)
  next
    fix c cs
    assume a: "dropWhile (\<lambda>c. c = CHR ''0'') s = c # cs" and b: "strip_zeros s = c # cs"
    show ?thesis using int_of_dec_dropWhile[of s] unfolding a b by simp
  qed
qed

lemma strip_zeros_idem: "strip_zeros (strip_zeros s) = strip_zeros s"
proof -
  from strip_zeros_cases[of s] show ?thesis
  proof (elim disjE conjE exE)
    assume b: "strip_zeros s = ''0''"
    show ?thesis unfolding b by (simp add: strip_zeros_def)
  next
    fix c cs
    assume b: "strip_zeros s = c # cs" and c: "c \<noteq> CHR ''0''"
    show ?thesis unfolding b using c by (simp add: strip_zeros_def)
  qed
qed

lemma strip_zeros_digits:
  assumes "list_all is_digit s"
  shows "list_all is_digit (strip_zeros s)"
proof -
  from strip_zeros_cases[of s] show ?thesis
  proof (elim disjE conjE exE)
    assume b: "strip_zeros s = ''0''"
    show ?thesis unfolding b by (simp add: is_digit_def)
  next
    fix c cs
    assume a: "dropWhile (\<lambda>c. c = CHR ''0'') s = c # cs" and b: "strip_zeros s = c # cs"
    have "set (dropWhile (\<lambda>c. c = CHR ''0'') s) \<subseteq> set s" by (rule set_dropWhileD[THEN subsetI])
    then have "set (c # cs) \<subseteq> set s" unfolding a .
    then show ?thesis unfolding b using assms unfolding list_all_iff by blast
  qed
qed

lemma strip_zeros_length:
  assumes "s \<noteq> []"
  shows "length (strip_zeros s) \<le> length s"
proof -
  from strip_zeros_cases[of s] show ?thesis
  proof (elim disjE conjE exE)
    assume b: "strip_zeros s = ''0''"
    show ?thesis unfolding b using assms by (cases s) simp_all
  next
    fix c cs
    assume a: "dropWhile (\<lambda>c. c = CHR ''0'') s = c # cs" and b: "strip_zeros s = c # cs"
    have "length (dropWhile (\<lambda>c. c = CHR ''0'') s) \<le> length s" by (rule length_dropWhile_le)
    then show ?thesis unfolding a b .
  qed
qed

lemma path_ok_root: "path_ok ''/''"
  by (simp add: path_ok_def is_plain_def)

lemma url_finish_wf:
  assumes "url_finish scheme dflt user pass host portstr path query fragment = Some p"
  shows "protocol p = scheme @ '':'' \<and> host_ok (hostname p) \<and> port_wf (port p) \<and>
         (port p \<noteq> [] \<longrightarrow> int_of_dec (port p) \<noteq> dflt) \<and>
         pathname p = (if path = [] then ''/'' else path) \<and> path_ok path \<and>
         search_ok (search p) \<and> hash_ok (hash p)"
proof -
  from assms have c: "host_ok host" "list_all is_digit portstr" "length portstr \<le> 5"
    "int_of_dec portstr \<le> 65535" "path_ok path"
    "list_all (\<lambda>c. is_plain c \<or> c = CHR ''?'' \<or> c = CHR ''%'') query"
    "list_all (\<lambda>c. is_plain c \<or> c = CHR ''?'' \<or> c = CHR ''%'' \<or> c = CHR ''#'') fragment"
    unfolding url_finish_def by (simp_all split: if_splits)
  then have cond: "host_ok host \<and> list_all is_unreserved user \<and> list_all is_unreserved pass \<and>
         list_all is_digit portstr \<and> length portstr \<le> 5 \<and> int_of_dec portstr \<le> 65535 \<and>
         path_ok path \<and>
         list_all (\<lambda>c. is_plain c \<or> c = CHR ''?'' \<or> c = CHR ''%'') query \<and>
         list_all (\<lambda>c. is_plain c \<or> c = CHR ''?'' \<or> c = CHR ''%'' \<or> c = CHR ''#'') fragment"
    using assms unfolding url_finish_def by (simp split: if_splits)
  have "Some p = Some \<lparr>protocol = scheme @ '':'', username = user, password = pass, hostname = host,
                 port = (if portstr = [] \<or> int_of_dec portstr = dflt then []
                         else strip_zeros portstr),
                 pathname = (if path = [] then ''/'' else path),
                 search = (if query = [] then [] else CHR ''?'' # query),
                 hash = (if fragment = [] then [] else CHR ''#'' # fragment)\<rparr>"
    using assms cond unfolding url_finish_def by simp
  then have p: "p = \<lparr>protocol = scheme @ '':'', username = user, password = pass, hostname = host,
                 port = (if portstr = [] \<or> int_of_dec portstr = dflt then []
                         else strip_zeros portstr),
                 pathname = (if path = [] then ''/'' else path),
                 search = (if query = [] then [] else CHR ''?'' # query),
                 hash = (if fragment = [] then [] else CHR ''#'' # fragment)\<rparr>"
    by simp
  have pw: "port_wf (port p)"
  proof (cases "portstr = [] \<or> int_of_dec portstr = dflt")
    case True
    then show ?thesis unfolding p port_wf_def by simp
  next
    case False
    then have ne: "portstr \<noteq> []" by simp
    have "length (strip_zeros portstr) \<le> 5"
      using strip_zeros_length[OF ne] c(3) by simp
    then show ?thesis
      unfolding p port_wf_def using False c(2,4) strip_zeros_digits[OF c(2)]
      by (simp add: int_of_dec_strip strip_zeros_idem)
  qed
  have pd: "port p \<noteq> [] \<longrightarrow> int_of_dec (port p) \<noteq> dflt"
    unfolding p by (simp add: int_of_dec_strip)
  have "search_ok (search p)" unfolding p search_ok_def using c(6) by simp
  moreover have "hash_ok (hash p)" unfolding p hash_ok_def using c(7) by simp
  ultimately show ?thesis using pw pd c(1,5) unfolding p by simp
qed

lemma path_start:
  "takeWhile (\<lambda>c. c \<notin> set ''?#'') (dropWhile (\<lambda>c. c \<notin> set ''/?#'') r) \<noteq> [] \<Longrightarrow>
   hd (takeWhile (\<lambda>c. c \<notin> set ''?#'') (dropWhile (\<lambda>c. c \<notin> set ''/?#'') r)) = CHR ''/''"
proof -
  define d where "d = dropWhile (\<lambda>c. c \<notin> set ''/?#'') r"
  assume "takeWhile (\<lambda>c. c \<notin> set ''?#'') (dropWhile (\<lambda>c. c \<notin> set ''/?#'') r) \<noteq> []"
  then have ne: "takeWhile (\<lambda>c. c \<notin> set ''?#'') d \<noteq> []" unfolding d_def .
  then obtain c cs where d: "d = c # cs" by (cases d) auto
  with ne have c1: "c \<notin> set ''?#''" by (auto split: if_splits)
  have "\<not> (hd d \<notin> set ''/?#'')" unfolding d_def using d d_def by (intro hd_dropWhile) auto
  with d have "c \<in> set ''/?#''" by simp
  with c1 have "c = CHR ''/''" by auto
  with d c1 show ?thesis unfolding d_def[symmetric] by simp
qed

lemma url_fragment_finish:
  assumes "url_fragment s = Some p"
  shows "\<exists>scheme dflt user pass host portstr r query fragment.
           default_port scheme = Some dflt \<and>
           url_finish scheme dflt user pass host portstr
             (takeWhile (\<lambda>c. c \<notin> set ''?#'') (dropWhile (\<lambda>c. c \<notin> set ''/?#'') r)) query fragment = Some p"
proof -
  define scheme where "scheme = takeWhile (\<lambda>c. c \<noteq> CHR '':'') s"
  define after where "after = dropWhile (\<lambda>c. c \<noteq> CHR '':'') s"
  from assms have "url_scheme scheme after = Some p"
    unfolding url_fragment_def scheme_def after_def .
  then obtain dflt where d: "default_port scheme = Some dflt"
    and a: "url_authority scheme dflt (drop 3 after) = Some p"
    unfolding url_scheme_def by (auto split: option.splits if_splits)
  define r where "r = drop 3 after"
  define path where "path = takeWhile (\<lambda>c. c \<notin> set ''?#'') (dropWhile (\<lambda>c. c \<notin> set ''/?#'') r)"
  from a have "\<exists>authority query fragment. url_credentials scheme dflt authority path query fragment = Some p"
    unfolding url_authority_def url_path_def url_query_def r_def[symmetric] path_def[symmetric] by blast
  then obtain authority query fragment
    where c: "url_credentials scheme dflt authority path query fragment = Some p" by blast
  then have "\<exists>cred hostport. url_hostport scheme dflt cred hostport path query fragment = Some p"
    unfolding url_credentials_def by (cases "CHR ''@'' \<in> set authority") (simp_all, blast+)
  then have "\<exists>user pass host portstr. url_finish scheme dflt user pass host portstr path query fragment = Some p"
    unfolding url_hostport_def by blast
  then show ?thesis using d unfolding path_def by blast
qed

lemma url_fragment_wf:
  assumes "url_fragment s = Some p"
  shows "\<exists>scheme dflt. default_port scheme = Some dflt \<and> protocol p = scheme @ '':'' \<and>
           host_ok (hostname p) \<and> port_wf (port p) \<and>
           (port p \<noteq> [] \<longrightarrow> int_of_dec (port p) \<noteq> dflt) \<and>
           pathname p \<noteq> [] \<and> hd (pathname p) = CHR ''/'' \<and> path_ok (pathname p) \<and>
           search_ok (search p) \<and> hash_ok (hash p)"
proof -
  from url_fragment_finish[OF assms] obtain scheme dflt user pass host portstr r query fragment
    where d: "default_port scheme = Some dflt"
      and f: "url_finish scheme dflt user pass host portstr
             (takeWhile (\<lambda>c. c \<notin> set ''?#'') (dropWhile (\<lambda>c. c \<notin> set ''/?#'') r)) query fragment = Some p"
    by blast
  define path where "path = takeWhile (\<lambda>c. c \<notin> set ''?#'') (dropWhile (\<lambda>c. c \<notin> set ''/?#'') r)"
  from url_finish_wf[OF f] have w: "protocol p = scheme @ '':''" "host_ok (hostname p)"
    "port_wf (port p)" "pathname p = (if path = [] then ''/'' else path)" "path_ok path"
    "search_ok (search p)" "hash_ok (hash p)" "port p \<noteq> [] \<longrightarrow> int_of_dec (port p) \<noteq> dflt"
    unfolding path_def by simp_all
  have "pathname p \<noteq> [] \<and> hd (pathname p) = CHR ''/'' \<and> path_ok (pathname p)"
  proof (cases "path = []")
    case True
    then show ?thesis using w(4) path_ok_root by simp
  next
    case False
    then show ?thesis using w(4,5) path_start[of r] unfolding path_def by simp
  qed
  then show ?thesis using d w by blast
qed

lemma port_or_80_wf:
  assumes "port_wf pt"
  shows "port_or_80 pt \<noteq> [] \<and> list_all is_digit (port_or_80 pt) \<and> length (port_or_80 pt) \<le> 5 \<and>
         int_of_dec (port_or_80 pt) \<le> 65535 \<and> strip_zeros (port_or_80 pt) = port_or_80 pt"
proof (cases "pt = []")
  case True
  then show ?thesis
    by (simp add: port_or_80_def is_digit_def int_of_dec_def digit_val_def strip_zeros_def)
next
  case False
  then show ?thesis using assms by (simp add: port_or_80_def port_wf_def)
qed

lemma int_of_dec_80: "int_of_dec ''80'' = 80"
  by (simp add: int_of_dec_def digit_val_def)

text \<open>What \<open>url_fragment\<close> covers has a colon, so \<open>new_URL\<close> gives the same answer.\<close>

lemma new_URL_covered:
  assumes "url_fragment s = Some p"
  shows "new_URL s = Some p"
proof -
  have "CHR '':'' \<in> set s"
  proof (rule ccontr)
    assume "CHR '':'' \<notin> set s"
    then have d: "dropWhile (\<lambda>c. c \<noteq> CHR '':'') s = []" by auto
    have "url_fragment s = None"
      unfolding url_fragment_def url_scheme_def d
      by (simp add: startsWith_def split: option.splits)
    with assms show False by simp
  qed
  then show ?thesis using assms by (simp add: new_URL_def)
qed

lemma rewrite_reparses:
  assumes u: "url_fragment url = Some p"
    and c: "umbrel_ip (hostname p) \<or> is_loopback (hostname p)"
    and h: "url_fragment home = Some b"
  shows "\<exists>q. new_URL (rewriteUmbrelURL new_URL home url) = Some q \<and>
           protocol q = protocol p \<and> username q = [] \<and> password q = [] \<and>
           hostname q = hostname b \<and>
           port q = (if port p \<noteq> [] then port p
                     else if protocol p = ''http:'' \<or> protocol p = ''ws:'' then [] else ''80'') \<and>
           pathname q = pathname p \<and> search q = search p \<and> hash q = hash p"
proof -
  from url_fragment_wf[OF u] obtain scheme dflt where w:
    "default_port scheme = Some dflt" "protocol p = scheme @ '':''" "port_wf (port p)"
    "port p \<noteq> [] \<longrightarrow> int_of_dec (port p) \<noteq> dflt"
    "pathname p \<noteq> []" "hd (pathname p) = CHR ''/''" "path_ok (pathname p)"
    "search_ok (search p)" "hash_ok (hash p)"
    by blast
  from url_fragment_wf[OF h] have hb: "host_ok (hostname b)" by blast
  have r: "rewriteUmbrelURL new_URL home url =
      scheme @ ''://'' @ hostname b @ '':'' @ port_or_80 (port p) @ pathname p @ search p @ hash p"
    using new_URL_covered[OF u] c new_URL_covered[OF h] w(2)
    by (auto simp: rewriteUmbrelURL_def newURL_def is_loopback_def)
  from port_or_80_wf[OF w(3)] have pw: "port_or_80 (port p) \<noteq> []" "list_all is_digit (port_or_80 (port p))"
    "length (port_or_80 (port p)) \<le> 5" "int_of_dec (port_or_80 (port p)) \<le> 65535"
    "strip_zeros (port_or_80 (port p)) = port_or_80 (port p)"
    by simp_all
  have "url_fragment (rewriteUmbrelURL new_URL home url) =
      Some \<lparr>protocol = scheme @ '':'', username = [], password = [], hostname = hostname b,
            port = (if int_of_dec (port_or_80 (port p)) = dflt then [] else strip_zeros (port_or_80 (port p))),
            pathname = pathname p, search = search p, hash = hash p\<rparr>"
    unfolding r by (rule parse_canonical[OF w(1) hb pw(1-4) w(5-9)])
  then have pc: "new_URL (rewriteUmbrelURL new_URL home url) =
      Some \<lparr>protocol = scheme @ '':'', username = [], password = [], hostname = hostname b,
            port = (if int_of_dec (port_or_80 (port p)) = dflt then [] else strip_zeros (port_or_80 (port p))),
            pathname = pathname p, search = search p, hash = hash p\<rparr>"
    by (rule new_URL_covered)
  have pt: "(if int_of_dec (port_or_80 (port p)) = dflt then [] else strip_zeros (port_or_80 (port p))) =
      (if port p \<noteq> [] then port p
       else if protocol p = ''http:'' \<or> protocol p = ''ws:'' then [] else ''80'')"
  proof (cases "port p = []")
    case True
    then show ?thesis using scheme_cases[OF w(1)] w(2)
      by (auto simp: port_or_80_def int_of_dec_80 strip_zeros_def)
  next
    case False
    then show ?thesis using w(4) pw(5) by (simp add: port_or_80_def)
  qed
  show ?thesis unfolding pc pt using w(2) by simp
qed

text \<open>
  C6. A destination that does not parse, or whose host name is neither accepted by
  the regular expression nor \<^verbatim>\<open>localhost\<close> nor \<^verbatim>\<open>127.0.0.1\<close>, is returned as it is.
\<close>

theorem rewrite_unchanged:
  assumes "case U url of
             None \<Rightarrow> True
           | Some parsed \<Rightarrow>
               \<not> umbrel_ip (hostname parsed) \<and> hostname parsed \<noteq> ''localhost'' \<and>
               hostname parsed \<noteq> ''127.0.0.1''"
  shows "rewriteUmbrelURL U home url = url"
proof (cases "U url")
  case None
  then show ?thesis by (simp add: rewriteUmbrelURL_def)
next
  case (Some parsed)
  with assms show ?thesis by (simp add: rewriteUmbrelURL_def)
qed

theorem rewrite_unchanged_witness:
  "rewriteUmbrelURL new_URL ''http://umbrel.local'' ''http://example.com/x'' = ''http://example.com/x'' \<and>
   rewriteUmbrelURL new_URL ''http://umbrel.local'' ''not a url'' = ''not a url''"
proof -
  have 1: "case new_URL ''http://example.com/x'' of
             None \<Rightarrow> True
           | Some parsed \<Rightarrow>
               \<not> umbrel_ip (hostname parsed) \<and> hostname parsed \<noteq> ''localhost'' \<and>
               hostname parsed \<noteq> ''127.0.0.1''"
    by (simp add: parse_example_com umbrel_ip_def startsWith_def)
  have 2: "case new_URL ''not a url'' of
             None \<Rightarrow> True
           | Some parsed \<Rightarrow>
               \<not> umbrel_ip (hostname parsed) \<and> hostname parsed \<noteq> ''localhost'' \<and>
               hostname parsed \<noteq> ''127.0.0.1''"
    by (simp add: parse_garbage)
  show ?thesis
    using rewrite_unchanged[where U = new_URL and url = "''http://example.com/x''"
        and home = "''http://umbrel.local''"]
      rewrite_unchanged[where U = new_URL and url = "''not a url''"
        and home = "''http://umbrel.local''"] 1 2
    by simp
qed

section \<open>The session: invariants\<close>

lemmas overlay_defs = showNetworkError_def showLoadError_def showCrashOverlay_def
  showUnresponsiveOverlay_def hideOverlay_def

lemmas handler_defs = startNetworkCheck_def stopNetworkCheck_def reloadPage_def probe_tick_def
  probe_done_def windowOpenHandler_def will_navigate_def did_navigate_def did_navigate_in_page_def
  will_redirect_def did_fail_load_def crashed_def reload_timeout_def startup_timeout_def
  kiosk_retry_def kiosk_reload_def kiosk_navigate_def bridge_navigate_def kiosk_goHome_def
  kiosk_goBack_def kiosk_goForward_def kiosk_clearCache_def

lemma cli_url_cfg0: "cli_url cfg0 = ''http://umbrel.local''"
  by (simp add: cfg0_def parseArgs_def DEFAULT_URL_def)

lemma init_cfg0:
  "init cfg0 =
     \<lparr>targetURL = ''http://umbrel.local'', currentURL = ''http://umbrel.local'', isOnline = True,
      networkCheckTimer = None, isShowingOverlay = False, overlays = [],
      requests = [LoadFile ''loading.html''], intervals = [], next_timer = 0, probes = 0,
      pending_reloads = 0, startup_pending = True, windows = 1\<rparr>"
  by (simp add: init_def cli_url_cfg0)

lemma run_snoc: "run U cfg s (es @ [e]) = step U cfg (run U cfg s es) e"
  by (simp add: run_def)

text \<open>Every callback keeps the timer handle and the running timers in agreement.\<close>

lemma timer_consistent_step: "timer_consistent s \<Longrightarrow> timer_consistent (step U cfg s e)"
  by (cases e)
    (auto simp: timer_consistent_def overlay_defs handler_defs Let_def split: option.splits)

lemma timer_consistent_run: "timer_consistent s \<Longrightarrow> timer_consistent (run U cfg s es)"
  unfolding run_def by (induction es arbitrary: s) (simp_all add: timer_consistent_step)

lemma timer_consistent_init: "timer_consistent (init cfg)"
  by (simp add: timer_consistent_def init_def)

lemma intervals_le_1: "timer_consistent s \<Longrightarrow> length (intervals s) \<le> 1"
  by (simp add: timer_consistent_def split: option.splits)

text \<open>No callback leaves more than one overlay element in the page.\<close>

lemma one_overlay_step: "length (overlays s) \<le> 1 \<Longrightarrow> length (overlays (step U cfg s e)) \<le> 1"
  by (cases e) (auto simp: overlay_defs handler_defs Let_def split: option.splits)

lemma one_overlay_run: "length (overlays s) \<le> 1 \<Longrightarrow> length (overlays (run U cfg s es)) \<le> 1"
  unfolding run_def
proof (induction es arbitrary: s)
  case Nil
  then show ?case by simp
next
  case (Cons e es)
  from Cons.prems have "length (overlays (step U cfg s e)) \<le> 1"
    by (rule one_overlay_step)
  then show ?case using Cons.IH by simp
qed

text \<open>No callback opens or closes a window.\<close>

lemma windows_step: "windows (step U cfg s e) = windows s"
  by (cases e) (auto simp: overlay_defs handler_defs Let_def split: option.splits)

lemma windows_run: "windows (run U cfg s es) = windows s"
  unfolding run_def by (induction es arbitrary: s) (simp_all add: windows_step)

text \<open>Once both stored URLs are http or https URLs, they stay so.\<close>

lemma http_step:
  "is_http_url (currentURL s) \<and> is_http_url (targetURL s) \<Longrightarrow>
   is_http_url (currentURL (step U cfg s e)) \<and> is_http_url (targetURL (step U cfg s e))"
  by (cases e)
    (auto simp: is_http_url_def overlay_defs handler_defs Let_def split: option.splits)

lemma http_run:
  "is_http_url (currentURL s) \<and> is_http_url (targetURL s) \<Longrightarrow>
   is_http_url (currentURL (run U cfg s es)) \<and> is_http_url (targetURL (run U cfg s es))"
  unfolding run_def
proof (induction es arbitrary: s)
  case Nil
  then show ?case by simp
next
  case (Cons e es)
  from Cons.prems
  have "is_http_url (currentURL (step U cfg s e)) \<and> is_http_url (targetURL (step U cfg s e))"
    by (rule http_step)
  then show ?case using Cons.IH by simp
qed

section \<open>Load failures\<close>

text \<open>The four codes that main.js tests, by their names; the timeouts are not among them.\<close>

lemma network_class_codes:
  "(errorCode = - 106 \<or> errorCode = - 105 \<or> errorCode = - 102 \<or> errorCode = - 101) \<longleftrightarrow>
   errorCode \<in> {ERR_INTERNET_DISCONNECTED, ERR_NAME_NOT_RESOLVED, ERR_CONNECTION_REFUSED,
                 ERR_CONNECTION_RESET}"
  by (auto simp: ERR_INTERNET_DISCONNECTED_def ERR_NAME_NOT_RESOLVED_def ERR_CONNECTION_REFUSED_def
      ERR_CONNECTION_RESET_def)

lemma timeouts_outside_network_class:
  "ERR_TIMED_OUT \<notin> {- 106, - 105, - 102, - 101} \<and> ERR_CONNECTION_TIMED_OUT \<notin> {- 106, - 105, - 102, - 101}"
  by (simp add: ERR_TIMED_OUT_def ERR_CONNECTION_TIMED_OUT_def)




section \<open>New windows\<close>

text \<open>
  C3. For every URL the window-open handler answers \<open>Deny\<close> and requests the
  rewritten URL in the existing window; the event adds no window, and after any
  sequence of events there is one window.
\<close>

theorem window_open_denied:
  "fst (windowOpenHandler U cfg url s) = Deny \<and>
   requests (snd (windowOpenHandler U cfg url s)) =
     requests s @ [LoadURL (rewriteUmbrelURL U (cli_url cfg) url)] \<and>
   windows (step U cfg s (WindowOpen url)) = windows s \<and>
   windows (run U cfg (init cfg) es) = 1"
  by (simp add: windowOpenHandler_def windows_run init_def)

theorem window_open_denied_witness:
  "fst (windowOpenHandler new_URL cfg0 ''http://10.21.0.5:3000/app/settings'' (init cfg0)) = Deny \<and>
   requests (snd (windowOpenHandler new_URL cfg0 ''http://10.21.0.5:3000/app/settings'' (init cfg0))) =
     [LoadFile ''loading.html'', LoadURL ''http://umbrel.local:3000/app/settings''] \<and>
   windows (run new_URL cfg0 (init cfg0)
      [WindowOpen ''http://10.21.0.5:3000/app/settings'', WindowOpen ''http://example.com/x'']) = 1"
  using window_open_denied[of new_URL cfg0 "''http://10.21.0.5:3000/app/settings''" "init cfg0"
      "[WindowOpen ''http://10.21.0.5:3000/app/settings'', WindowOpen ''http://example.com/x'']"]
  by (simp add: init_cfg0 cli_url_cfg0 rewriteUmbrelURL_def parse_popup parse_home umbrel_ip_popup
      newURL_def port_or_80_def)

section \<open>The network-recovery probe\<close>

lemma probe_success:
  assumes "timer_consistent s" and "length (overlays s) \<le> 1" and "0 < probes s"
  shows "networkCheckTimer (probe_done (Some True) js s) = None \<and>
         intervals (probe_done (Some True) js s) = [] \<and>
         \<not> isShowingOverlay (probe_done (Some True) js s) \<and>
         (js \<longrightarrow> overlays (probe_done (Some True) js s) = []) \<and>
         isOnline (probe_done (Some True) js s) \<and>
         requests (probe_done (Some True) js s) = requests s @ [LoadURL (currentURL s)]"
  using assms
  by (auto simp: probe_done_def reloadPage_def hideOverlay_def stopNetworkCheck_def
      timer_consistent_def Let_def split: option.splits)

lemma offline_probing:
  "run new_URL cfg0 (init cfg0) [DidFailLoad (- 105) ''ERR_NAME_NOT_RESOLVED'' True, ProbeTick] =
     \<lparr>targetURL = ''http://umbrel.local'', currentURL = ''http://umbrel.local'', isOnline = False,
      networkCheckTimer = Some 0, isShowingOverlay = True, overlays = [NetworkErrorOverlay],
      requests = [LoadFile ''loading.html''], intervals = [0], next_timer = 1, probes = 1,
      pending_reloads = 0, startup_pending = True, windows = 1\<rparr>"
  by (simp add: run_def init_cfg0 did_fail_load_def showNetworkError_def startNetworkCheck_def
      probe_tick_def)

text \<open>
  What holds of the probe timer. After any sequence of events at most one interval
  timer is running; \<open>startNetworkCheck\<close> changes nothing while the handle is set;
  and when a probe that is in flight is answered with success, the timer is
  cancelled and its handle cleared, the overlay flag is cleared and the overlay
  element removed (when the script runs), and that answer adds one request, a load
  of the current URL. With the timer gone, no further probe is sent.
\<close>

lemma probe_timer_facts:
  "length (intervals (run U cfg (init cfg) es)) \<le> 1 \<and>
   (networkCheckTimer s \<noteq> None \<longrightarrow> startNetworkCheck s = s) \<and>
   (0 < probes (run U cfg (init cfg) es) \<longrightarrow>
      networkCheckTimer (step U cfg (run U cfg (init cfg) es) (ProbeDone (Some True) js)) = None \<and>
      intervals (step U cfg (run U cfg (init cfg) es) (ProbeDone (Some True) js)) = [] \<and>
      \<not> isShowingOverlay (step U cfg (run U cfg (init cfg) es) (ProbeDone (Some True) js)) \<and>
      (js \<longrightarrow> overlays (step U cfg (run U cfg (init cfg) es) (ProbeDone (Some True) js)) = []) \<and>
      requests (step U cfg (run U cfg (init cfg) es) (ProbeDone (Some True) js)) =
        requests (run U cfg (init cfg) es) @ [LoadURL (currentURL (run U cfg (init cfg) es))] \<and>
      step U cfg (step U cfg (run U cfg (init cfg) es) (ProbeDone (Some True) js)) ProbeTick =
        step U cfg (run U cfg (init cfg) es) (ProbeDone (Some True) js))"
proof -
  have tc: "timer_consistent (run U cfg (init cfg) es)"
    by (rule timer_consistent_run[OF timer_consistent_init])
  have ov: "length (overlays (run U cfg (init cfg) es)) \<le> 1"
    by (rule one_overlay_run) (simp add: init_def)
  have 1: "length (intervals (run U cfg (init cfg) es)) \<le> 1"
    by (rule intervals_le_1[OF tc])
  have 2: "networkCheckTimer s \<noteq> None \<longrightarrow> startNetworkCheck s = s"
    by (simp add: startNetworkCheck_def)
  show ?thesis
    using 1 2 probe_success[OF tc ov, of js] by (simp add: probe_tick_def)
qed

text \<open>
  C4: the code does not keep the claim's single reload. The timer's callback does
  not look at the handle again after its \<^verbatim>\<open>await\<close>. When the timer fires twice
  before the first fetch is answered and both fetches succeed, the first answer
  cancels the timer and requests a reload, and the second answer, arriving when the
  handle is already cleared, requests the reload again.
\<close>

theorem late_probe_reloads_again:
  "networkCheckTimer (run U cfg (init cfg)
      [DidFailLoad (- 105) d True, ProbeTick, ProbeTick, ProbeDone (Some True) True]) = None \<and>
   requests (run U cfg (init cfg)
      [DidFailLoad (- 105) d True, ProbeTick, ProbeTick, ProbeDone (Some True) True]) =
     [LoadFile ''loading.html'', LoadURL (cli_url cfg)] \<and>
   requests (run U cfg (init cfg)
      [DidFailLoad (- 105) d True, ProbeTick, ProbeTick, ProbeDone (Some True) True,
       ProbeDone (Some True) True]) =
     [LoadFile ''loading.html'', LoadURL (cli_url cfg), LoadURL (cli_url cfg)]"
  by (simp add: run_def init_def did_fail_load_def showNetworkError_def startNetworkCheck_def
      probe_tick_def probe_done_def stopNetworkCheck_def hideOverlay_def reloadPage_def)

theorem late_probe_reloads_again_witness:
  "requests (run new_URL cfg0 (init cfg0)
      [DidFailLoad (- 105) ''ERR_NAME_NOT_RESOLVED'' True, ProbeTick, ProbeTick,
       ProbeDone (Some True) True, ProbeDone (Some True) True]) =
     [LoadFile ''loading.html'', LoadURL ''http://umbrel.local'', LoadURL ''http://umbrel.local'']"
  using late_probe_reloads_again[of new_URL cfg0 "''ERR_NAME_NOT_RESOLVED''"]
  by (simp add: cli_url_cfg0)

text \<open>
  Neither the retry button nor a committed navigation stops the timer. After a
  retry that loads the page, the timer is still running, and the next successful
  probe reloads the page that is already shown.
\<close>

lemma retry_leaves_timer_running:
  "networkCheckTimer (run U cfg (init cfg)
      [DidFailLoad (- 105) d True, Retry True, DidNavigate ''http://umbrel.local/'' True]) = Some 0 \<and>
   requests (run U cfg (init cfg)
      [DidFailLoad (- 105) d True, Retry True, DidNavigate ''http://umbrel.local/'' True,
       ProbeTick, ProbeDone (Some True) True]) =
     [LoadFile ''loading.html'', LoadURL (cli_url cfg), LoadURL ''http://umbrel.local/'']"
  by (simp add: run_def init_def did_fail_load_def showNetworkError_def startNetworkCheck_def
      kiosk_retry_def did_navigate_def startsWith_def
      probe_tick_def probe_done_def stopNetworkCheck_def hideOverlay_def reloadPage_def)

section \<open>Overlays\<close>

lemma load_error_shown:
  "run new_URL cfg0 (init cfg0) [DidFailLoad ERR_ABORTED ''ERR_ABORTED'' True] =
     \<lparr>targetURL = ''http://umbrel.local'', currentURL = ''http://umbrel.local'', isOnline = True,
      networkCheckTimer = None, isShowingOverlay = True, overlays = [LoadErrorOverlay ''ERR_ABORTED''],
      requests = [LoadFile ''loading.html''], intervals = [], next_timer = 0, probes = 0,
      pending_reloads = 0, startup_pending = True, windows = 1\<rparr>"
  by (simp add: run_def init_cfg0 ERR_ABORTED_def did_fail_load_def showLoadError_def)

text \<open>
  C5 as stated fails: \<open>showNetworkError\<close> and \<open>showLoadError\<close> return at once while an
  overlay is flagged as shown. The load-error overlay of an aborted load stays in
  the page when a name-resolution failure follows, and no network-error overlay
  appears, although the probe timer starts.
\<close>

theorem earlier_overlay_stays_counterexample:
  "overlays (run new_URL cfg0 (init cfg0) [DidFailLoad ERR_ABORTED ''ERR_ABORTED'' True]) =
     [LoadErrorOverlay ''ERR_ABORTED''] \<and>
   overlays (run new_URL cfg0 (init cfg0)
      [DidFailLoad ERR_ABORTED ''ERR_ABORTED'' True,
       DidFailLoad ERR_NAME_NOT_RESOLVED ''ERR_NAME_NOT_RESOLVED'' True]) =
     [LoadErrorOverlay ''ERR_ABORTED''] \<and>
   networkCheckTimer (run new_URL cfg0 (init cfg0)
      [DidFailLoad ERR_ABORTED ''ERR_ABORTED'' True,
       DidFailLoad ERR_NAME_NOT_RESOLVED ''ERR_NAME_NOT_RESOLVED'' True]) = Some 0"
  by (simp add: run_def init_cfg0 ERR_ABORTED_def ERR_NAME_NOT_RESOLVED_def did_fail_load_def
      showLoadError_def showNetworkError_def startNetworkCheck_def)

text \<open>
  C5, amended. After any sequence of events the page holds at most one overlay
  element. \<open>showUnresponsiveOverlay\<close>, when its script runs, removes the overlay
  element that is there and leaves its own as the only one. \<open>showNetworkError\<close> and
  \<open>showLoadError\<close> do nothing while an overlay is flagged as shown, so the earlier
  overlay stays. \<open>showCrashOverlay\<close> replaces the page: it requests the crash page.
\<close>

theorem overlay_entry:
  "length (overlays (run U cfg (init cfg) es)) \<le> 1 \<and>
   (length (overlays s) \<le> 1 \<longrightarrow> overlays (showUnresponsiveOverlay True s) = [UnresponsiveOverlay]) \<and>
   (isShowingOverlay s \<longrightarrow> showNetworkError js s = s \<and> showLoadError js d s = s) \<and>
   requests (showCrashOverlay s) = requests s @ [LoadFile ''crash.html'']"
proof -
  have "length (overlays (run U cfg (init cfg) es)) \<le> 1"
    by (rule one_overlay_run) (simp add: init_def)
  moreover have "length (overlays s) \<le> 1 \<longrightarrow> overlays (showUnresponsiveOverlay True s) = [UnresponsiveOverlay]"
    by (cases "overlays s") (simp_all add: showUnresponsiveOverlay_def)
  ultimately show ?thesis
    by (simp add: showNetworkError_def showLoadError_def showCrashOverlay_def)
qed

theorem overlay_entry_witness:
  "length (overlays (run new_URL cfg0 (init cfg0)
      [DidFailLoad ERR_ABORTED ''ERR_ABORTED'' True, Unresponsive True])) \<le> 1 \<and>
   overlays (showUnresponsiveOverlay True
      (run new_URL cfg0 (init cfg0) [DidFailLoad ERR_ABORTED ''ERR_ABORTED'' True])) = [UnresponsiveOverlay] \<and>
   showNetworkError True (run new_URL cfg0 (init cfg0) [DidFailLoad ERR_ABORTED ''ERR_ABORTED'' True]) =
     run new_URL cfg0 (init cfg0) [DidFailLoad ERR_ABORTED ''ERR_ABORTED'' True]"
  using overlay_entry[of new_URL cfg0 "[DidFailLoad ERR_ABORTED ''ERR_ABORTED'' True, Unresponsive True]"
      "run new_URL cfg0 (init cfg0) [DidFailLoad ERR_ABORTED ''ERR_ABORTED'' True]" True "[]"]
  by (simp add: load_error_shown)

section \<open>The current URL and the target URL\<close>

lemma currentURL_step:
  "currentURL (step U cfg s e) = currentURL s \<or>
   (carries e (currentURL (step U cfg s e)) \<and> is_http_url (currentURL (step U cfg s e)))"
  by (cases e)
    (auto simp: carries_def is_http_url_def overlay_defs handler_defs Let_def split: option.splits)

lemma currentURL_unchanged:
  "carries e u \<Longrightarrow> \<not> is_http_url u \<Longrightarrow> currentURL (step U cfg s e) = currentURL s"
  by (auto simp: carries_def is_http_url_def overlay_defs handler_defs Let_def)

text \<open>
  C7 as stated fails: the handler of \<^verbatim>\<open>will-navigate\<close> stores the requested URL as
  the current URL before anything has committed.
\<close>

theorem will_navigate_sets_current_url_counterexample:
  "currentURL (init cfg0) = ''http://umbrel.local'' \<and>
   currentURL (step new_URL cfg0 (init cfg0) (WillNavigate ''http://example.com/x'')) =
     ''http://example.com/x'' \<and>
   \<not> is_commit (WillNavigate ''http://example.com/x'')"
  by (simp add: init_cfg0 cli_url_cfg0 will_navigate_def rewriteUmbrelURL_def parse_example_com
      umbrel_ip_def startsWith_def is_commit_def)

text \<open>
  C7, amended. A callback changes the current URL only to an http or https URL
  that its event carries: a \<^verbatim>\<open>will-navigate\<close> or \<^verbatim>\<open>will-redirect\<close> request, a
  committed navigation (in the page or not), or a navigation sent through the
  bridge. An event that carries a URL which is neither http nor https leaves the
  current URL as it was. When the URL of the command line is an http or https URL,
  the current URL and the target URL are http or https URLs after any sequence of
  events, so a reload and the home button never ask for a local page.
\<close>

theorem currentURL_updates:
  "(currentURL (step U cfg s e) = currentURL s \<or>
      (carries e (currentURL (step U cfg s e)) \<and> is_http_url (currentURL (step U cfg s e)))) \<and>
   (carries e u \<and> \<not> is_http_url u \<longrightarrow> currentURL (step U cfg s e) = currentURL s) \<and>
   (is_http_url (cli_url cfg) \<longrightarrow>
      is_http_url (currentURL (run U cfg (init cfg) es)) \<and>
      is_http_url (targetURL (run U cfg (init cfg) es)))"
proof -
  have "is_http_url (cli_url cfg) \<longrightarrow>
      is_http_url (currentURL (run U cfg (init cfg) es)) \<and>
      is_http_url (targetURL (run U cfg (init cfg) es))"
    using http_run[of "init cfg" U cfg es] by (simp add: init_def)
  then show ?thesis
    using currentURL_step[of U cfg s e] currentURL_unchanged[of e u U cfg s] by blast
qed

theorem currentURL_updates_witness:
  "currentURL (step new_URL cfg0 (init cfg0) (DidNavigate ''file:///opt/umbrel-kiosk/src/crash.html'' True)) =
     ''http://umbrel.local'' \<and>
   currentURL (step new_URL cfg0 (init cfg0) (DidNavigate ''http://umbrel.local/login'' True)) =
     ''http://umbrel.local/login'' \<and>
   is_http_url (currentURL (run new_URL cfg0 (init cfg0)
      [DidNavigate ''file:///opt/umbrel-kiosk/src/loading.html'' True, WillNavigate ''ftp://example.com/'',
       GoHomeClicked]))"
proof -
  have c: "carries (DidNavigate ''file:///opt/umbrel-kiosk/src/crash.html'' True)
             ''file:///opt/umbrel-kiosk/src/crash.html''"
    by (simp add: carries_def)
  have n: "\<not> is_http_url ''file:///opt/umbrel-kiosk/src/crash.html''"
    by (simp add: is_http_url_def startsWith_def)
  have h: "is_http_url (cli_url cfg0)"
    by (simp add: cli_url_cfg0 is_http_url_def startsWith_def)
  from currentURL_updates[of new_URL cfg0 "init cfg0"
      "DidNavigate ''file:///opt/umbrel-kiosk/src/crash.html'' True"
      "''file:///opt/umbrel-kiosk/src/crash.html''"
      "[DidNavigate ''file:///opt/umbrel-kiosk/src/loading.html'' True, WillNavigate ''ftp://example.com/'',
       GoHomeClicked]"] c n h
  have 1: "currentURL (step new_URL cfg0 (init cfg0) (DidNavigate ''file:///opt/umbrel-kiosk/src/crash.html'' True)) =
     currentURL (init cfg0)"
    and 3: "is_http_url (currentURL (run new_URL cfg0 (init cfg0)
      [DidNavigate ''file:///opt/umbrel-kiosk/src/loading.html'' True, WillNavigate ''ftp://example.com/'',
       GoHomeClicked]))"
    by blast+
  have 2: "currentURL (step new_URL cfg0 (init cfg0) (DidNavigate ''http://umbrel.local/login'' True)) =
     ''http://umbrel.local/login''"
    by (simp add: init_cfg0 did_navigate_def hideOverlay_def startsWith_def)
  from 1 2 3 show ?thesis by (simp add: init_cfg0)
qed

text \<open>
  The flag \<^verbatim>\<open>--url=\<close> takes any string. With a file URL there the home button
  requests a local page, hence the condition on the command line above.
\<close>

lemma url_flag_any_scheme:
  "cli_url (parseArgs [''--url=file:///opt/page.html'']) = ''file:///opt/page.html''"
  by (simp add: parseArgs_def parseArg_def startsWith_def)

lemma home_button_local_page:
  "requests (step U (parseArgs [''--url=file:///opt/page.html''])
      (init (parseArgs [''--url=file:///opt/page.html''])) GoHomeClicked) =
     [LoadFile ''loading.html'', LoadURL ''file:///opt/page.html'']"
  by (simp add: kiosk_goHome_def init_def url_flag_any_scheme)

lemma targetURL_step:
  "targetURL (step U cfg s e) \<noteq> targetURL s \<Longrightarrow>
   e = Navigate (targetURL (step U cfg s e)) \<and> targetURL (step U cfg s e) \<noteq> [] \<and>
   is_http_url (targetURL (step U cfg s e))"
  by (cases e)
    (auto simp: is_http_url_def overlay_defs handler_defs Let_def split: option.splits if_splits)

lemma targetURL_run:
  "\<forall>u. Navigate u \<notin> set es \<Longrightarrow> targetURL (run U cfg s es) = targetURL s"
  unfolding run_def
proof (induction es arbitrary: s)
  case Nil
  then show ?case by simp
next
  case (Cons e es)
  from Cons.prems have "\<forall>u. e \<noteq> Navigate u" by auto
  then have "targetURL (step U cfg s e) = targetURL s"
    using targetURL_step[of U cfg s e] by blast
  moreover from Cons.prems have "\<forall>u. Navigate u \<notin> set es" by auto
  ultimately show ?case using Cons.IH[of "step U cfg s e"] by simp
qed

text \<open>
  C9. The handler of \<^verbatim>\<open>kiosk:navigate\<close> stores its URL as target URL and as
  current URL. The bridge sends every non-empty http or https URL to that handler.
  After any events that are not navigations through the bridge, the home button
  requests the navigated URL. No other event changes the target URL.
\<close>

theorem navigate_overwrites_target:
  "targetURL (kiosk_navigate url s) = url \<and>
   currentURL (kiosk_navigate url s) = url \<and>
   (url \<noteq> [] \<and> is_http_url url \<longrightarrow> step U cfg s (Navigate url) = kiosk_navigate url s) \<and>
   ((\<forall>u. Navigate u \<notin> set es) \<longrightarrow>
      requests (kiosk_goHome (run U cfg (kiosk_navigate url s) es)) =
        requests (run U cfg (kiosk_navigate url s) es) @ [LoadURL url]) \<and>
   (targetURL (step U cfg s e) \<noteq> targetURL s \<longrightarrow> e = Navigate (targetURL (step U cfg s e)))"
proof -
  have "(\<forall>u. Navigate u \<notin> set es) \<longrightarrow> targetURL (run U cfg (kiosk_navigate url s) es) = url"
    using targetURL_run[of es U cfg "kiosk_navigate url s"] by (simp add: kiosk_navigate_def)
  then show ?thesis
    using targetURL_step[of U cfg s e]
    by (auto simp: kiosk_navigate_def kiosk_goHome_def bridge_navigate_def is_http_url_def)
qed

theorem navigate_overwrites_target_witness:
  "targetURL (step new_URL cfg0 (init cfg0) (Navigate ''http://example.com/x'')) = ''http://example.com/x'' \<and>
   requests (kiosk_goHome (run new_URL cfg0 (kiosk_navigate ''http://example.com/x'' (init cfg0))
      [DidNavigate ''http://example.com/x'' True, Reload])) =
     [LoadFile ''loading.html'', LoadURL ''http://example.com/x'', LoadURL ''http://example.com/x'',
      LoadURL ''http://example.com/x'']"
proof -
  have g: "''http://example.com/x'' \<noteq> [] \<and> is_http_url ''http://example.com/x''"
    by (simp add: is_http_url_def startsWith_def)
  have n: "\<forall>u. Navigate u \<notin> set [DidNavigate ''http://example.com/x'' True, Reload]"
    by simp
  have r: "requests (run new_URL cfg0 (kiosk_navigate ''http://example.com/x'' (init cfg0))
      [DidNavigate ''http://example.com/x'' True, Reload]) =
     [LoadFile ''loading.html'', LoadURL ''http://example.com/x'', LoadURL ''http://example.com/x'']"
    by (simp add: run_def init_cfg0 kiosk_navigate_def did_navigate_def hideOverlay_def
        kiosk_reload_def reloadPage_def startsWith_def)
  from navigate_overwrites_target[of "''http://example.com/x''" "init cfg0" new_URL cfg0
      "[DidNavigate ''http://example.com/x'' True, Reload]" "Navigate ''http://example.com/x''"] g n r
  show ?thesis by simp
qed

section \<open>Configuration store: properties\<close>



text \<open>
  The key \<^verbatim>\<open>__proto__\<close> with an object as value replaces the prototype of the
  configuration object and creates no own property. From then on the platform
  decides: where it lets a write throw, as for a name that a frozen prototype
  holds, \<^verbatim>\<open>set\<close> throws and nothing is saved.
\<close>

lemma proto_key_replaces_prototype:
  "prototype m = ObjectPrototype \<Longrightarrow> config m ''__proto__'' = None \<Longrightarrow> object_or_null v \<Longrightarrow>
   set' w S E (KStr ''__proto__'') v m fs = saved w S (m\<lparr>prototype := Replaced v []\<rparr>) fs"
  by (simp add: set'_def assign_def)

lemma replaced_prototype_can_throw:
  "prototype m = Replaced p log \<Longrightarrow> engine_throws E m name v \<Longrightarrow>
   fst (set' w S E (KStr name) v m fs) = Throws \<and> snd (snd (set' w S E (KStr name) v m fs)) = fs"
  by (simp add: set'_def assign_def)

lemma replaced_prototype_read:
  "prototype m = Replaced p log \<Longrightarrow> name \<noteq> [] \<Longrightarrow> get E (KStr name) m = engine_get E m name"
  by (simp add: get_def read_def)



text \<open>
  C10. When the configuration file exists and cannot be read, or its text does not
  parse, \<open>load\<close> returns normally and leaves the configuration equal to the default
  record, whatever it was before; the path is kept.
\<close>

theorem load_failure_gives_defaults:
  assumes "fs (configPath m) = Some Unreadable \<or>
           (\<exists>data. fs (configPath m) = Some (Content data) \<and> P data = None)"
  shows "config (load P fs m) = DEFAULT_CONFIG \<and> configPath (load P fs m) = configPath m"
  using assms by (auto simp: load_def)

theorem load_failure_gives_defaults_witness:
  "config (load (\<lambda>data. if data = ''{}'' then Some (JObj []) else None)
      [''/opt/umbrel-kiosk/config.json'' \<mapsto> Content ''{cursorTheme: light'']
      \<lparr>configPath = ''/opt/umbrel-kiosk/config.json'',
       config = DEFAULT_CONFIG(''cursorTheme'' \<mapsto> JStr ''light''),
       prototype = ObjectPrototype\<rparr>) = DEFAULT_CONFIG \<and>
   config (load (\<lambda>data. if data = ''{}'' then Some (JObj []) else None)
      [''/opt/umbrel-kiosk/config.json'' \<mapsto> Unreadable]
      \<lparr>configPath = ''/opt/umbrel-kiosk/config.json'',
       config = DEFAULT_CONFIG(''cursorTheme'' \<mapsto> JStr ''light''),
       prototype = ObjectPrototype\<rparr>) = DEFAULT_CONFIG"
  using load_failure_gives_defaults[of
      "[''/opt/umbrel-kiosk/config.json'' \<mapsto> Content ''{cursorTheme: light'']"
      "\<lparr>configPath = ''/opt/umbrel-kiosk/config.json'',
        config = DEFAULT_CONFIG(''cursorTheme'' \<mapsto> JStr ''light''),
        prototype = ObjectPrototype\<rparr>"
      "\<lambda>data. if data = ''{}'' then Some (JObj []) else None"]
    load_failure_gives_defaults[of
      "[''/opt/umbrel-kiosk/config.json'' \<mapsto> Unreadable]"
      "\<lparr>configPath = ''/opt/umbrel-kiosk/config.json'',
        config = DEFAULT_CONFIG(''cursorTheme'' \<mapsto> JStr ''light''),
        prototype = ObjectPrototype\<rparr>"
      "\<lambda>data. if data = ''{}'' then Some (JObj []) else None"]
  by simp

text \<open>
  A file that parses is merged over the defaults, and a failed or successful load
  of an existing file leaves an object with the prototype of an object literal.
\<close>

lemma load_merges:
  "fs (configPath m) = Some (Content data) \<Longrightarrow> P data = Some (JObj [(''cursorTheme'', JStr ''light'')]) \<Longrightarrow>
   config (load P fs m) = DEFAULT_CONFIG(''cursorTheme'' \<mapsto> JStr ''light'')"
  by (simp add: load_def)

lemma load_fresh_object:
  "fs (configPath m) \<noteq> None \<Longrightarrow> prototype (load P fs m) = ObjectPrototype"
  by (auto simp: load_def split: stored.splits option.splits)

end
